theory Spec2Isabelle
  imports
    Main
    "HOL-Library.Word"
    "HOL-Library.Char_ord"
    "HOL-Library.List_Lexorder"
begin

section \<open>Errors\<close>

text \<open>
  Go errors are values compared by identity. The four sentinels of the enricher package
  and the two of package context are constructors; \<open>Wrapf prefix e\<close> stands for
  \<^verbatim>\<open>fmt.Errorf(prefix + ": %w", e)\<close>, \<open>StatusError n\<close> for the adapter's
  \<^verbatim>\<open>fmt.Errorf("musicbrainz API returned status %d", n)\<close>, and \<open>Foreign s\<close> for an error
  made by a library (net/http, encoding/json).
\<close>

datatype error =
    ErrNotFound
  | ErrRateLimit
  | ErrAPIError
  | ErrNoProvider
  | Canceled
  | DeadlineExceeded
  | Wrapf string error
  | StatusError int
  | Foreign string

section \<open>float64\<close>

text \<open>
  A finite float64 is \<open>Fin m e\<close>, the number \<open>m * 2 ^ e\<close>, kept in the normal form
  where \<open>m\<close> is odd (or \<open>m = 0\<close> and \<open>e = 0\<close>), so that equal numbers are equal terms.
  Addition is exact addition followed by rounding to nearest, ties to even, at 53 bits
  (and at the fixed exponent \<open>-1074\<close> in the subnormal range); a result of 1025 bits
  or more above exponent 0 overflows to an infinity. The two zeros are not told apart:
  no operation used here distinguishes them.
\<close>

datatype float64 = Fin int int | PosInf | NegInf | NaN

function bitlen :: "int \<Rightarrow> int" where
  "bitlen n = (if n \<le> 0 then 0 else 1 + bitlen (n div 2))"
  by pat_completeness auto
termination
  by (relation "measure nat") simp_all

declare bitlen.simps [simp del]

function normalize :: "int \<Rightarrow> int \<Rightarrow> int \<times> int" where
  "normalize m e =
     (if m = 0 then (0, 0) else if even m then normalize (m div 2) (e + 1) else (m, e))"
  by pat_completeness auto
termination
  apply (relation "measure (\<lambda>(m, e). nat \<bar>m\<bar>)")
   apply simp
  apply simp
  apply (elim evenE)
  apply simp
  done

declare normalize.simps [simp del]

definition round64 :: "int \<Rightarrow> int \<Rightarrow> float64" where
  "round64 s e =
     (let n = \<bar>s\<bar>;
          sh = nat (max 0 (max (bitlen n - 53) (- 1074 - e)));
          q = n div 2 ^ sh;
          r = n mod 2 ^ sh;
          up = (2 * r > 2 ^ sh \<or> (2 * r = 2 ^ sh \<and> odd q));
          mag = (if up then q + 1 else q);
          e' = e + int sh
      in if bitlen mag + e' > 1024 then (if s < 0 then NegInf else PosInf)
         else (case normalize (sgn s * mag) e' of (m, x) \<Rightarrow> Fin m x))"

fun fadd :: "float64 \<Rightarrow> float64 \<Rightarrow> float64" where
  "fadd (Fin m1 e1) (Fin m2 e2) =
     (let e = min e1 e2 in round64 (m1 * 2 ^ nat (e1 - e) + m2 * 2 ^ nat (e2 - e)) e)"
| "fadd NaN _ = NaN"
| "fadd _ NaN = NaN"
| "fadd PosInf NegInf = NaN"
| "fadd NegInf PosInf = NaN"
| "fadd PosInf _ = PosInf"
| "fadd _ PosInf = PosInf"
| "fadd NegInf _ = NegInf"
| "fadd _ NegInf = NegInf"

text \<open>\<open>fge a b\<close> is Go's \<^verbatim>\<open>a >= b\<close> and \<open>fgt a b\<close> is \<^verbatim>\<open>a > b\<close>: false on a NaN.\<close>

fun fge :: "float64 \<Rightarrow> float64 \<Rightarrow> bool" where
  "fge NaN _ = False"
| "fge _ NaN = False"
| "fge PosInf _ = True"
| "fge _ NegInf = True"
| "fge NegInf _ = False"
| "fge _ PosInf = False"
| "fge (Fin m1 e1) (Fin m2 e2) =
     (let e = min e1 e2 in m2 * 2 ^ nat (e2 - e) \<le> m1 * 2 ^ nat (e1 - e))"

fun fgt :: "float64 \<Rightarrow> float64 \<Rightarrow> bool" where
  "fgt NaN _ = False"
| "fgt _ NaN = False"
| "fgt NegInf _ = False"
| "fgt _ PosInf = False"
| "fgt PosInf _ = True"
| "fgt _ NegInf = True"
| "fgt (Fin m1 e1) (Fin m2 e2) =
     (let e = min e1 e2 in m2 * 2 ^ nat (e2 - e) < m1 * 2 ^ nat (e1 - e))"

text \<open>
  The float64 constants of the source: the doubles nearest to the decimal literals
  (0.1 is 0x3FB999999999999A, 0.2 is 0x3FC999999999999A, 0.4 is 0x3FD999999999999A).
\<close>

definition f0_0 :: float64 where "f0_0 = Fin 0 0"
definition f0_1 :: float64 where "f0_1 = Fin 3602879701896397 (- 55)"
definition f0_2 :: float64 where "f0_2 = Fin 3602879701896397 (- 54)"
definition f0_4 :: float64 where "f0_4 = Fin 3602879701896397 (- 53)"
definition f1_0 :: float64 where "f1_0 = Fin 1 0"

section \<open>pkg/enricher/enricher.go: the data model\<close>

text \<open>
  Field names carry the struct's initials (\<open>tm\<close>, \<open>sr\<close>, \<open>ec\<close>), since several
  structs of the source share field names. \<open>Extra\<close> is the open bag of
  provider-specific values (strings and ints in this repository).
\<close>

datatype extra_value = ExtraString string | ExtraInt int

record TrackMetadata =
  tm_Artist :: string
  tm_Title :: string
  tm_Album :: string
  tm_Label :: string
  tm_ReleaseDate :: string
  tm_Genre :: string
  tm_CatalogNumber :: string
  tm_Year :: int
  tm_ProviderID :: string
  tm_ProviderName :: string
  tm_Confidence :: float64
  tm_Extra :: "(string \<times> extra_value) list"

record SearchRequest =
  sr_Artist :: string
  sr_Title :: string
  sr_Album :: string
  sr_Genre :: string
  sr_Year :: string
  sr_Duration :: int
  sr_PreferOriginalRelease :: bool
  sr_MaxResults :: int

text \<open>
  \<open>ProviderStrategy\<close> is a string type in the source; any string other than the
  three constants is \<open>StrategyOther\<close> and takes the \<^verbatim>\<open>default\<close> branch.
\<close>

datatype ProviderStrategy =
  StrategyFirst | StrategyBest | StrategyFallback | StrategyOther string

record EnricherConfig =
  ec_Strategy :: ProviderStrategy
  ec_MinConfidence :: float64
  ec_RequireLabel :: bool
  ec_RequestTimeout :: int
  ec_CacheEnabled :: bool
  ec_CacheTTL :: int

subsection \<open>Time and contexts\<close>

text \<open>
  Instants and durations are nanoseconds. A context is the instant from which its
  \<^verbatim>\<open>Done\<close> channel is closed (if ever) and the error \<^verbatim>\<open>Err\<close> reports from then on.
  The world a call runs in has a clock, \<open>now\<close>, and whatever else the providers
  read and change (their own state, the network) in the record's extension.
\<close>

record Context =
  doneAt :: "int option"
  ctxErr :: error

record world =
  now :: int

definition Background :: Context where
  "Background = \<lparr>doneAt = None, ctxErr = Canceled\<rparr>"

definition isDone :: "Context \<Rightarrow> int \<Rightarrow> bool" where
  "isDone ctx t = (case doneAt ctx of None \<Rightarrow> False | Some c \<Rightarrow> c \<le> t)"

definition Err :: "Context \<Rightarrow> int \<Rightarrow> error option" where
  "Err ctx t = (if isDone ctx t then Some (ctxErr ctx) else None)"

text \<open>
  \<^verbatim>\<open>context.WithTimeout(parent, d)\<close> called at instant \<open>t\<close>: done at the parent's
  instant or at the deadline \<open>t + d\<close>, whichever comes first, with the parent's error
  or \<open>DeadlineExceeded\<close> accordingly.
\<close>

definition WithTimeout :: "Context \<Rightarrow> int \<Rightarrow> int \<Rightarrow> Context" where
  "WithTimeout parent d t =
     (case doneAt parent of
        None \<Rightarrow> \<lparr>doneAt = Some (t + d), ctxErr = DeadlineExceeded\<rparr>
      | Some c \<Rightarrow>
          if c \<le> t + d then \<lparr>doneAt = Some c, ctxErr = ctxErr parent\<rparr>
          else \<lparr>doneAt = Some (t + d), ctxErr = DeadlineExceeded\<rparr>)"

subsection \<open>Providers and the Enricher\<close>

text \<open>
  Of the \<open>MetadataProvider\<close> interface the lookups call \<^verbatim>\<open>LookupWithHints\<close> only, so
  a provider is that method: from a context, a request and the world to Go's pair
  \<^verbatim>\<open>(*TrackMetadata, error)\<close> (either may be nil) and the world after the call.
\<close>

type_synonym 'w MetadataProvider =
  "Context \<Rightarrow> SearchRequest \<Rightarrow> 'w \<Rightarrow> (TrackMetadata option \<times> error option) \<times> 'w"

text \<open>The \<open>config\<close> pointer is never nil: \<open>NewEnricher\<close> replaces a nil one by defaults.\<close>

record 'w Enricher =
  providers :: "'w MetadataProvider list"
  config :: EnricherConfig

definition accepts :: "EnricherConfig \<Rightarrow> TrackMetadata option \<Rightarrow> bool" where
  "accepts cfg result =
     (case result of
        None \<Rightarrow> False
      | Some r \<Rightarrow>
          fge (tm_Confidence r) (ec_MinConfidence cfg) \<and>
          (\<not> ec_RequireLabel cfg \<or> tm_Label r \<noteq> ''''))"

text \<open>The loop of \<open>lookupFirst\<close>, with \<open>lastErr\<close> as its accumulator.\<close>

fun lookupFirst_loop ::
  "EnricherConfig \<Rightarrow> Context \<Rightarrow> SearchRequest \<Rightarrow> 'w MetadataProvider list \<Rightarrow>
   error option \<Rightarrow> 'w \<Rightarrow> (TrackMetadata option \<times> error option) \<times> 'w" where
  "lookupFirst_loop cfg ctx req [] lastErr w =
     (if lastErr \<noteq> None then ((None, lastErr), w) else ((None, Some ErrNotFound), w))"
| "lookupFirst_loop cfg ctx req (provider # rest) lastErr w =
     (case provider ctx req w of
        ((result, err), w') \<Rightarrow>
          if err \<noteq> None then lookupFirst_loop cfg ctx req rest err w'
          else if accepts cfg result then ((result, None), w')
          else lookupFirst_loop cfg ctx req rest lastErr w')"

definition lookupFirst ::
  "'w Enricher \<Rightarrow> Context \<Rightarrow> SearchRequest \<Rightarrow> 'w \<Rightarrow>
   (TrackMetadata option \<times> error option) \<times> 'w" where
  "lookupFirst e ctx req w = lookupFirst_loop (config e) ctx req (providers e) None w"

text \<open>The loop of \<open>lookupBest\<close>, with \<open>bestResult\<close> and \<open>lastErr\<close>.\<close>

fun lookupBest_loop ::
  "EnricherConfig \<Rightarrow> Context \<Rightarrow> SearchRequest \<Rightarrow> 'w MetadataProvider list \<Rightarrow>
   TrackMetadata option \<Rightarrow> error option \<Rightarrow> 'w \<Rightarrow>
   (TrackMetadata option \<times> error option) \<times> 'w" where
  "lookupBest_loop cfg ctx req [] bestResult lastErr w =
     (if bestResult \<noteq> None then ((bestResult, None), w)
      else if lastErr \<noteq> None then ((None, lastErr), w)
      else ((None, Some ErrNotFound), w))"
| "lookupBest_loop cfg ctx req (provider # rest) bestResult lastErr w =
     (case provider ctx req w of
        ((result, err), w') \<Rightarrow>
          if err \<noteq> None then lookupBest_loop cfg ctx req rest bestResult err w'
          else
            (case result of
               None \<Rightarrow> lookupBest_loop cfg ctx req rest bestResult lastErr w'
             | Some r \<Rightarrow>
                 if accepts cfg (Some r) \<and>
                    (case bestResult of
                       None \<Rightarrow> True
                     | Some b \<Rightarrow> fgt (tm_Confidence r) (tm_Confidence b))
                 then lookupBest_loop cfg ctx req rest (Some r) lastErr w'
                 else lookupBest_loop cfg ctx req rest bestResult lastErr w'))"

definition lookupBest ::
  "'w Enricher \<Rightarrow> Context \<Rightarrow> SearchRequest \<Rightarrow> 'w \<Rightarrow>
   (TrackMetadata option \<times> error option) \<times> 'w" where
  "lookupBest e ctx req w =
     lookupBest_loop (config e) ctx req (providers e) None None w"

definition lookupFallback ::
  "'w Enricher \<Rightarrow> Context \<Rightarrow> SearchRequest \<Rightarrow> 'w \<Rightarrow>
   (TrackMetadata option \<times> error option) \<times> 'w" where
  "lookupFallback e ctx req w =
     (case lookupFirst e ctx req w of
        ((result, err), w') \<Rightarrow>
          if err = None \<and> result \<noteq> None then ((result, None), w')
          else
            let simplifiedReq =
              \<lparr>sr_Artist = sr_Artist req, sr_Title = sr_Title req, sr_Album = '''',
               sr_Genre = '''', sr_Year = '''', sr_Duration = 0,
               sr_PreferOriginalRelease = sr_PreferOriginalRelease req,
               sr_MaxResults = sr_MaxResults req\<rparr>
            in lookupFirst e ctx simplifiedReq w')"

definition LookupWithRequest ::
  "('a world_scheme) Enricher \<Rightarrow> Context \<Rightarrow> SearchRequest \<Rightarrow> 'a world_scheme \<Rightarrow>
   (TrackMetadata option \<times> error option) \<times> 'a world_scheme" where
  "LookupWithRequest e ctx0 req w =
     (let ctx = WithTimeout ctx0 (ec_RequestTimeout (config e)) (now w)
      in case ec_Strategy (config e) of
           StrategyFirst \<Rightarrow> lookupFirst e ctx req w
         | StrategyBest \<Rightarrow> lookupBest e ctx req w
         | StrategyFallback \<Rightarrow> lookupFallback e ctx req w
         | StrategyOther _ \<Rightarrow> lookupFirst e ctx req w)"

definition Lookup ::
  "('a world_scheme) Enricher \<Rightarrow> Context \<Rightarrow> string \<Rightarrow> string \<Rightarrow> 'a world_scheme \<Rightarrow>
   (TrackMetadata option \<times> error option) \<times> 'a world_scheme" where
  "Lookup e ctx artist title w =
     (if length (providers e) = 0 then ((None, Some ErrNoProvider), w)
      else
        let req =
          \<lparr>sr_Artist = artist, sr_Title = title, sr_Album = '''', sr_Genre = '''',
           sr_Year = '''', sr_Duration = 0, sr_PreferOriginalRelease = True,
           sr_MaxResults = 5\<rparr>
        in LookupWithRequest e ctx req w)"

text \<open>
  \<open>CalculateConfidence\<close>, on a non-nil \<open>metadata\<close> (the source dereferences it
  unconditionally).
\<close>

definition CalculateConfidence :: "TrackMetadata \<Rightarrow> bool \<Rightarrow> float64" where
  "CalculateConfidence metadata exactMatch =
     (let c0 = f0_0;
          c1 = fadd c0 f0_2;
          c2 = (if exactMatch then fadd c1 f0_4 else fadd c1 f0_2);
          c3 = (if tm_Label metadata \<noteq> '''' then fadd c2 f0_2 else c2);
          c4 = (if tm_ReleaseDate metadata \<noteq> '''' \<or> tm_Year metadata > 0
                then fadd c3 f0_1 else c3);
          c5 = (if tm_CatalogNumber metadata \<noteq> '''' then fadd c4 f0_1 else c4)
      in if fgt c5 f1_0 then f1_0 else c5)"

text \<open>
  The spec's formula for the score, in its own words: the clamp to a maximum of 1.0 of
  0.2, plus 0.4 on an exact match and 0.2 otherwise, plus 0.2 for a label, 0.1 for a
  release date or a positive year, 0.1 for a catalog number.
\<close>

definition spec_min :: "float64 \<Rightarrow> float64 \<Rightarrow> float64" where
  "spec_min a b = (if fgt b a then a else b)"

definition spec_confidence :: "TrackMetadata \<Rightarrow> bool \<Rightarrow> float64" where
  "spec_confidence md exactMatch =
     spec_min f1_0
       (fadd (fadd (fadd (fadd f0_2 (if exactMatch then f0_4 else f0_2))
          (if tm_Label md \<noteq> '''' then f0_2 else f0_0))
          (if tm_ReleaseDate md \<noteq> '''' \<or> tm_Year md > 0 then f0_1 else f0_0))
          (if tm_CatalogNumber md \<noteq> '''' then f0_1 else f0_0))"

subsection \<open>The First strategy, in the spec's words\<close>

text \<open>
  \<open>calls\<close> is the sequence of answers the providers give when asked one after the
  other in registration order, each in the world its predecessor left. A call
  qualifies when it returned no error and a non-nil result that meets the quality
  thresholds. \<open>last_error\<close> is the last error among the calls. The spec's First strategy returns
  the earliest qualifying call's result (the later providers are then not asked);
  without one it returns the last error, or NotFound when no call returned an error.
\<close>

fun calls ::
  "'w MetadataProvider list \<Rightarrow> Context \<Rightarrow> SearchRequest \<Rightarrow> 'w \<Rightarrow>
   ((TrackMetadata option \<times> error option) \<times> 'w) list" where
  "calls [] ctx req w = []"
| "calls (p # ps) ctx req w = p ctx req w # calls ps ctx req (snd (p ctx req w))"

definition qualifies ::
  "EnricherConfig \<Rightarrow> (TrackMetadata option \<times> error option) \<times> 'w \<Rightarrow> bool" where
  "qualifies cfg c = (snd (fst c) = None \<and> accepts cfg (fst (fst c)))"

definition last_error ::
  "error option \<Rightarrow> ((TrackMetadata option \<times> error option) \<times> 'w) list \<Rightarrow> error option" where
  "last_error e0 cs = last (e0 # filter (\<lambda>e. e \<noteq> None) (map (\<lambda>c. snd (fst c)) cs))"

definition spec_lookupFirst ::
  "'w Enricher \<Rightarrow> Context \<Rightarrow> SearchRequest \<Rightarrow> 'w \<Rightarrow>
   (TrackMetadata option \<times> error option) \<times> 'w" where
  "spec_lookupFirst e ctx req w =
     (let cs = calls (providers e) ctx req w
      in case find (qualifies (config e)) cs of
           Some c \<Rightarrow> ((fst (fst c), None), snd c)
         | None \<Rightarrow>
             ((None, Some (case last_error None cs of Some err \<Rightarrow> err | None \<Rightarrow> ErrNotFound)),
              last (w # map snd cs)))"

subsection \<open>Example data\<close>

text \<open>
  Providers for the concrete runs below. The world of the first three is a counter of
  the calls made; the world of \<open>logging_provider\<close> is the list of the requests received.
\<close>

definition example_metadata :: "string \<Rightarrow> float64 \<Rightarrow> TrackMetadata" where
  "example_metadata name conf =
     \<lparr>tm_Artist = ''LTJ Bukem'', tm_Title = ''Music'', tm_Album = ''Music'',
      tm_Label = ''Good Looking'', tm_ReleaseDate = ''1993-04-01'', tm_Genre = '''',
      tm_CatalogNumber = ''GLR001'', tm_Year = 1993, tm_ProviderID = ''id'',
      tm_ProviderName = name, tm_Confidence = conf, tm_Extra = []\<rparr>"

definition failing_provider :: "error \<Rightarrow> nat MetadataProvider" where
  "failing_provider err = (\<lambda>ctx req w. ((None, Some err), Suc w))"

definition answering_provider :: "string \<Rightarrow> float64 \<Rightarrow> nat MetadataProvider" where
  "answering_provider name conf = (\<lambda>ctx req w. ((Some (example_metadata name conf), None), Suc w))"

definition logging_provider :: "(SearchRequest list) MetadataProvider" where
  "logging_provider = (\<lambda>ctx req w. ((None, Some ErrNotFound), w @ [req]))"

definition example_config :: EnricherConfig where
  "example_config =
     \<lparr>ec_Strategy = StrategyFirst, ec_MinConfidence = f0_4, ec_RequireLabel = True,
      ec_RequestTimeout = 30000000000, ec_CacheEnabled = True, ec_CacheTTL = 0\<rparr>"

definition example_request :: SearchRequest where
  "example_request =
     \<lparr>sr_Artist = ''LTJ Bukem'', sr_Title = ''Music'', sr_Album = ''Logical Progression'',
      sr_Genre = ''dnb'', sr_Year = ''1996'', sr_Duration = 300000000000,
      sr_PreferOriginalRelease = True, sr_MaxResults = 5\<rparr>"

section \<open>pkg/enricher/musicbrainz: the adapter\<close>

subsection \<open>types.go\<close>

text \<open>
  The fields of the JSON types that some function reads; the others (aliases, media,
  release groups and so on) are only decoded. \<open>Score\<close> is a Go \<^verbatim>\<open>int\<close>: 64 bits,
  two's complement, compared as signed.
\<close>

record Artist =
  ar_ID :: string
  ar_Name :: string
  ar_SortName :: string

record ArtistCredit =
  ac_Name :: string
  ac_Joinphrase :: string
  ac_Artist :: Artist

record Label =
  lb_ID :: string
  lb_Name :: string

record LabelInfo =
  li_CatalogNumber :: string
  li_Label :: Label

record Release =
  rl_ID :: string
  rl_Title :: string
  rl_Status :: string
  rl_Date :: string
  rl_Country :: string
  rl_LabelInfo :: "LabelInfo list"

record Recording =
  rc_ID :: string
  rc_Title :: string
  rc_Length :: int
  rc_Score :: "64 word"
  rc_ArtistCredit :: "ArtistCredit list"
  rc_Releases :: "Release list"

subsection \<open>musicbrainz.go: the pure selections\<close>

text \<open>
  \<^verbatim>\<open>strings.EqualFold\<close> (equality under Unicode simple case folding) is a parameter,
  \<open>eqFold\<close>, of the functions that call it. \<open>EqualFold_ascii\<close> is its restriction to
  ASCII letters, used for the concrete runs.
\<close>

definition lower_ascii :: "char \<Rightarrow> char" where
  "lower_ascii c =
     (if CHR ''A'' \<le> c \<and> c \<le> CHR ''Z'' then char_of (of_char c + (32::nat)) else c)"

definition EqualFold_ascii :: "string \<Rightarrow> string \<Rightarrow> bool" where
  "EqualFold_ascii s t = (map lower_ascii s = map lower_ascii t)"

text \<open>
  The inner loop over the artist credits: the first credit whose artist name matches
  adds 10 and ends the loop.
\<close>

fun artistBonus ::
  "(string \<Rightarrow> string \<Rightarrow> bool) \<Rightarrow> ArtistCredit list \<Rightarrow> string \<Rightarrow> 64 word \<Rightarrow> 64 word" where
  "artistBonus eqFold [] targetArtist score = score"
| "artistBonus eqFold (credit # rest) targetArtist score =
     (if eqFold (ar_Name (ac_Artist credit)) targetArtist then score + 10
      else artistBonus eqFold rest targetArtist score)"

definition recordingScore ::
  "(string \<Rightarrow> string \<Rightarrow> bool) \<Rightarrow> Recording \<Rightarrow> string \<Rightarrow> string \<Rightarrow> 64 word" where
  "recordingScore eqFold recording targetArtist targetTitle =
     (let score = rc_Score recording;
          score = (if eqFold (rc_Title recording) targetTitle then score + 10 else score)
      in artistBonus eqFold (rc_ArtistCredit recording) targetArtist score)"

text \<open>
  The loop of \<open>findBestRecordingMatch\<close> from index \<open>i\<close> on, with \<open>bestScore\<close> and
  \<open>bestRecording\<close>. The pointer \<^verbatim>\<open>&recordings[i]\<close> is the index \<open>i\<close>.
\<close>

fun findBestRecordingMatch_loop ::
  "(string \<Rightarrow> string \<Rightarrow> bool) \<Rightarrow> string \<Rightarrow> string \<Rightarrow> Recording list \<Rightarrow> nat \<Rightarrow>
   64 word \<Rightarrow> nat option \<Rightarrow> nat option" where
  "findBestRecordingMatch_loop eqFold targetArtist targetTitle [] i bestScore bestRecording =
     bestRecording"
| "findBestRecordingMatch_loop eqFold targetArtist targetTitle (recording # rest) i bestScore
     bestRecording =
     (let score = recordingScore eqFold recording targetArtist targetTitle
      in if bestScore <s score
         then findBestRecordingMatch_loop eqFold targetArtist targetTitle rest (Suc i) score (Some i)
         else findBestRecordingMatch_loop eqFold targetArtist targetTitle rest (Suc i) bestScore
                bestRecording)"

definition findBestRecordingMatch ::
  "(string \<Rightarrow> string \<Rightarrow> bool) \<Rightarrow> Recording list \<Rightarrow> string \<Rightarrow> string \<Rightarrow> nat option" where
  "findBestRecordingMatch eqFold recordings targetArtist targetTitle =
     (if length recordings = 0 then None
      else findBestRecordingMatch_loop eqFold targetArtist targetTitle recordings 0 0 None)"

text \<open>
  The loop of \<open>findBestRelease\<close> from index \<open>i\<close> on, with \<open>bestRelease\<close> and
  \<open>earliestDate\<close>. Go compares strings byte by byte, as the lexicographic order on
  \<open>char list\<close> does.
\<close>

fun findBestRelease_loop ::
  "Release list \<Rightarrow> nat \<Rightarrow> nat option \<Rightarrow> string \<Rightarrow> nat option" where
  "findBestRelease_loop [] i bestRelease earliestDate = bestRelease"
| "findBestRelease_loop (release # rest) i bestRelease earliestDate =
     (if rl_Date release \<noteq> ''''
      then (if earliestDate = '''' \<or> rl_Date release < earliestDate
            then findBestRelease_loop rest (Suc i) (Some i) (rl_Date release)
            else findBestRelease_loop rest (Suc i) bestRelease earliestDate)
      else if bestRelease = None
           then findBestRelease_loop rest (Suc i) (Some i) earliestDate
           else findBestRelease_loop rest (Suc i) bestRelease earliestDate)"

definition findBestRelease :: "Release list \<Rightarrow> bool \<Rightarrow> nat option" where
  "findBestRelease releases preferOriginal =
     (if length releases = 0 then None
      else if \<not> preferOriginal then Some 0
      else
        let bestRelease = findBestRelease_loop releases 0 None ''''
        in if bestRelease = None \<and> length releases > 0 then Some 0 else bestRelease)"

subsection \<open>musicbrainz.go: the provider and what it calls\<close>

text \<open>
  The provider's own state is the instant of its last request. The zero
  \<^verbatim>\<open>time.Time\<close> of a new provider is 1 January of year 1; \<^verbatim>\<open>time.Since\<close> saturates
  at the bounds of a 64-bit duration.
\<close>

record MusicBrainzProvider =
  mb_userAgent :: string
  mb_lastRequest :: int

definition baseURL :: string where
  "baseURL = ''https://musicbrainz.org/ws/2''"

definition userAgent :: string where
  "userAgent = ''tagger/0.1.0 (https://github.com/cerberussg/tagger)''"

definition rateLimit :: int where
  "rateLimit = 1000000000"

definition zeroTime :: int where
  "zeroTime = - 62135596800000000000"

definition Since :: "int \<Rightarrow> int \<Rightarrow> int" where
  "Since t current =
     (let d = current - t
      in if d > 9223372036854775807 then 9223372036854775807
         else if d < - 9223372036854775808 then - 9223372036854775808
         else d)"

definition NewMusicBrainzProvider :: MusicBrainzProvider where
  "NewMusicBrainzProvider = \<lparr>mb_userAgent = userAgent, mb_lastRequest = zeroTime\<rparr>"

text \<open>
  What the adapter calls outside this repository is a parameter, \<open>libs\<close>:
  \<^item> \<open>lib_NewRequest url\<close>: the error of \<^verbatim>\<open>http.NewRequestWithContext\<close>, if any;
  \<^item> \<open>lib_Do ctx url headers w\<close>: \<^verbatim>\<open>client.Do\<close>, a transport error or a response (status
    code and the outcome of reading the body), and the world when it returns;
  \<^item> \<open>lib_Encode\<close>: \<^verbatim>\<open>url.Values.Encode\<close>; \<open>lib_Itoa\<close>: \<^verbatim>\<open>strconv.Itoa\<close>;
  \<^item> \<open>lib_UnmarshalSearch\<close>, \<open>lib_UnmarshalDetail\<close>: \<^verbatim>\<open>json.Unmarshal\<close> followed by the
    selection of the \<^verbatim>\<open>Recordings\<close> or \<^verbatim>\<open>Releases\<close> field;
  \<^item> \<open>lib_EqualFold\<close>: \<^verbatim>\<open>strings.EqualFold\<close>;
  \<^item> \<open>lib_timerFirst\<close>: the case \<^verbatim>\<open>select\<close> takes when the timer and the context's
    \<^verbatim>\<open>Done\<close> channel become ready at the same instant (Go picks one at random).
\<close>

datatype http_response = Response int "error + string"

record 'a libs =
  lib_NewRequest :: "string \<Rightarrow> error option"
  lib_Do :: "Context \<Rightarrow> string \<Rightarrow> (string \<times> string) list \<Rightarrow> 'a world_scheme \<Rightarrow>
            (error + http_response) \<times> 'a world_scheme"
  lib_Encode :: "(string \<times> string) list \<Rightarrow> string"
  lib_Itoa :: "int \<Rightarrow> string"
  lib_UnmarshalSearch :: "string \<Rightarrow> error + Recording list"
  lib_UnmarshalDetail :: "string \<Rightarrow> error + Release list"
  lib_EqualFold :: "string \<Rightarrow> string \<Rightarrow> bool"
  lib_timerFirst :: bool

text \<open>
  \<open>waitForRateLimit\<close>. When a wait is due, the timer fires at \<open>now + waitTime\<close> and
  \<^verbatim>\<open>select\<close> takes whichever of the timer and \<^verbatim>\<open>ctx.Done()\<close> is ready first; a context
  that is already done is ready at once. Computation itself takes no time: the clock
  moves only in a wait or a remote call.
\<close>

definition waitForRateLimit ::
  "bool \<Rightarrow> Context \<Rightarrow> MusicBrainzProvider \<Rightarrow> 'a world_scheme \<Rightarrow>
   error option \<times> MusicBrainzProvider \<times> 'a world_scheme" where
  "waitForRateLimit timerFirst ctx m w =
     (let elapsed = Since (mb_lastRequest m) (now w)
      in if elapsed < rateLimit
         then
           let waitTime = rateLimit - elapsed;
               fire = now w + waitTime
           in (case doneAt ctx of
                 None \<Rightarrow> (None, m\<lparr>mb_lastRequest := fire\<rparr>, w\<lparr>now := fire\<rparr>)
               | Some c \<Rightarrow>
                   if c < fire \<or> (c = fire \<and> \<not> timerFirst)
                   then (Some (ctxErr ctx), m, w\<lparr>now := max (now w) c\<rparr>)
                   else (None, m\<lparr>mb_lastRequest := fire\<rparr>, w\<lparr>now := fire\<rparr>))
         else (None, m\<lparr>mb_lastRequest := now w\<rparr>, w))"

definition requestHeaders :: "MusicBrainzProvider \<Rightarrow> (string \<times> string) list" where
  "requestHeaders m = [(''User-Agent'', mb_userAgent m), (''Accept'', ''application/json'')]"

text \<open>The part common to both remote calls: the request, the status check, the body.\<close>

definition fetch ::
  "'a libs \<Rightarrow> Context \<Rightarrow> MusicBrainzProvider \<Rightarrow> string \<Rightarrow> 'a world_scheme \<Rightarrow>
   (error + string) \<times> 'a world_scheme" where
  "fetch libs ctx m url w =
     (case lib_NewRequest libs url of
        Some err \<Rightarrow> (Inl err, w)
      | None \<Rightarrow>
          (case lib_Do libs ctx url (requestHeaders m) w of
             (Inl err, w') \<Rightarrow> (Inl (Wrapf ''http request failed'' err), w')
           | (Inr (Response status body), w') \<Rightarrow>
               if status \<noteq> 200 then (Inl (StatusError status), w')
               else (case body of
                       Inl err \<Rightarrow> (Inl (Wrapf ''failed to read response body'' err), w')
                     | Inr bytes \<Rightarrow> (Inr bytes, w'))))"

definition searchQuery :: "SearchRequest \<Rightarrow> string" where
  "searchQuery req =
     (let query = ''artist:'' @ [CHR 0x22] @ sr_Artist req @ [CHR 0x22] @ '' AND recording:'' @
                  [CHR 0x22] @ sr_Title req @ [CHR 0x22]
      in if sr_Album req \<noteq> ''''
         then query @ '' AND release:'' @ [CHR 0x22] @ sr_Album req @ [CHR 0x22]
         else query)"

definition searchRecordings ::
  "'a libs \<Rightarrow> Context \<Rightarrow> SearchRequest \<Rightarrow> MusicBrainzProvider \<Rightarrow> 'a world_scheme \<Rightarrow>
   (error + Recording list) \<times> 'a world_scheme" where
  "searchRecordings libs ctx req m w =
     (let params = [(''query'', searchQuery req), (''limit'', lib_Itoa libs (sr_MaxResults req)),
                    (''fmt'', ''json'')];
          searchURL = baseURL @ ''/recording?'' @ lib_Encode libs params
      in case fetch libs ctx m searchURL w of
           (Inl err, w') \<Rightarrow> (Inl err, w')
         | (Inr body, w') \<Rightarrow>
             (case lib_UnmarshalSearch libs body of
                Inl err \<Rightarrow> (Inl (Wrapf ''failed to parse JSON response'' err), w')
              | Inr recordings \<Rightarrow> (Inr recordings, w')))"

definition getRecordingReleases ::
  "'a libs \<Rightarrow> Context \<Rightarrow> string \<Rightarrow> MusicBrainzProvider \<Rightarrow> 'a world_scheme \<Rightarrow>
   (error + Release list) \<times> MusicBrainzProvider \<times> 'a world_scheme" where
  "getRecordingReleases libs ctx recordingID m w =
     (case waitForRateLimit (lib_timerFirst libs) ctx m w of
        (Some err, m1, w1) \<Rightarrow> (Inl err, m1, w1)
      | (None, m1, w1) \<Rightarrow>
          let params = [(''inc'', ''labels''), (''fmt'', ''json'')];
              lookupURL = baseURL @ ''/recording/'' @ recordingID @ ''?'' @ lib_Encode libs params
          in case fetch libs ctx m1 lookupURL w1 of
               (Inl err, w2) \<Rightarrow> (Inl err, m1, w2)
             | (Inr body, w2) \<Rightarrow>
                 (case lib_UnmarshalDetail libs body of
                    Inl err \<Rightarrow> (Inl (Wrapf ''failed to parse JSON response'' err), m1, w2)
                  | Inr releases \<Rightarrow> (Inr releases, m1, w2)))"

text \<open>
  \<^verbatim>\<open>strconv.Atoi\<close> on a string of under 19 bytes (the caller passes four): an optional
  sign, then decimal digits only.
\<close>

definition isDigit :: "char \<Rightarrow> bool" where
  "isDigit c = (CHR ''0'' \<le> c \<and> c \<le> CHR ''9'')"

fun digitsValue :: "string \<Rightarrow> int \<Rightarrow> int option" where
  "digitsValue [] n = Some n"
| "digitsValue (c # cs) n =
     (if isDigit c then digitsValue cs (n * 10 + (of_char c - 48)) else None)"

definition Atoi :: "string \<Rightarrow> int option" where
  "Atoi s =
     (case s of
        [] \<Rightarrow> None
      | c # cs \<Rightarrow>
          if c = CHR ''-'' \<or> c = CHR ''+''
          then (if cs = [] then None
                else map_option (\<lambda>n. if c = CHR ''-'' then - n else n) (digitsValue cs 0))
          else digitsValue s 0)"

fun exactArtistMatch :: "(string \<Rightarrow> string \<Rightarrow> bool) \<Rightarrow> ArtistCredit list \<Rightarrow> string \<Rightarrow> bool" where
  "exactArtistMatch eqFold [] originalArtist = False"
| "exactArtistMatch eqFold (credit # rest) originalArtist =
     (if eqFold (ar_Name (ac_Artist credit)) originalArtist then True
      else exactArtistMatch eqFold rest originalArtist)"

definition convertToTrackMetadata ::
  "(string \<Rightarrow> string \<Rightarrow> bool) \<Rightarrow> Recording \<Rightarrow> Release \<Rightarrow> string \<Rightarrow> string \<Rightarrow> TrackMetadata" where
  "convertToTrackMetadata eqFold recording release originalArtist originalTitle =
     (let metadata =
            \<lparr>tm_Artist = originalArtist, tm_Title = originalTitle, tm_Album = rl_Title release,
             tm_Label = '''', tm_ReleaseDate = rl_Date release, tm_Genre = '''',
             tm_CatalogNumber = '''', tm_Year = 0, tm_ProviderID = rc_ID recording,
             tm_ProviderName = ''MusicBrainz'', tm_Confidence = f0_0, tm_Extra = []\<rparr>;
          metadata =
            (if rl_Date release \<noteq> '''' \<and> length (rl_Date release) \<ge> 4
             then (case Atoi (take 4 (rl_Date release)) of
                     Some year \<Rightarrow> metadata\<lparr>tm_Year := year\<rparr>
                   | None \<Rightarrow> metadata)
             else metadata);
          metadata =
            (case rl_LabelInfo release of
               [] \<Rightarrow> metadata
             | info # _ \<Rightarrow>
                 let labelled = metadata\<lparr>tm_Label := lb_Name (li_Label info)\<rparr>
                 in if li_CatalogNumber info \<noteq> ''''
                    then labelled\<lparr>tm_CatalogNumber := li_CatalogNumber info\<rparr>
                    else labelled);
          exactTitleMatch = eqFold (rc_Title recording) originalTitle;
          exactArtist = exactArtistMatch eqFold (rc_ArtistCredit recording) originalArtist;
          metadata =
            metadata\<lparr>tm_Confidence := CalculateConfidence metadata (exactArtist \<and> exactTitleMatch)\<rparr>
      in metadata\<lparr>tm_Extra :=
           [(''musicbrainz_recording_id'', ExtraString (rc_ID recording)),
            (''musicbrainz_release_id'', ExtraString (rl_ID release)),
            (''musicbrainz_score'', ExtraInt (sint (rc_Score recording)))]\<rparr>)"

definition LookupWithHints ::
  "'a libs \<Rightarrow> Context \<Rightarrow> SearchRequest \<Rightarrow> MusicBrainzProvider \<Rightarrow> 'a world_scheme \<Rightarrow>
   (TrackMetadata option \<times> error option) \<times> MusicBrainzProvider \<times> 'a world_scheme" where
  "LookupWithHints libs ctx req m w =
     (case waitForRateLimit (lib_timerFirst libs) ctx m w of
        (Some err, m1, w1) \<Rightarrow> ((None, Some err), m1, w1)
      | (None, m1, w1) \<Rightarrow>
          (case searchRecordings libs ctx req m1 w1 of
             (Inl err, w2) \<Rightarrow>
               ((None, Some (Wrapf ''musicbrainz recording search failed'' err)), m1, w2)
           | (Inr recordings, w2) \<Rightarrow>
               if length recordings = 0 then ((None, Some ErrNotFound), m1, w2)
               else
                 (case findBestRecordingMatch (lib_EqualFold libs) recordings
                         (sr_Artist req) (sr_Title req) of
                    None \<Rightarrow> ((None, Some ErrNotFound), m1, w2)
                  | Some i \<Rightarrow>
                      let bestRecording = recordings ! i
                      in (case getRecordingReleases libs ctx (rc_ID bestRecording) m1 w2 of
                            (Inl err, m3, w3) \<Rightarrow>
                              ((None, Some (Wrapf ''musicbrainz release lookup failed'' err)),
                               m3, w3)
                          | (Inr releases, m3, w3) \<Rightarrow>
                              (case findBestRelease releases (sr_PreferOriginalRelease req) of
                                 None \<Rightarrow> ((None, Some ErrNotFound), m3, w3)
                               | Some j \<Rightarrow>
                                   ((Some (convertToTrackMetadata (lib_EqualFold libs)
                                             bestRecording (releases ! j)
                                             (sr_Artist req) (sr_Title req)),
                                     None), m3, w3))))))"

definition MusicBrainz_Lookup ::
  "'a libs \<Rightarrow> Context \<Rightarrow> string \<Rightarrow> string \<Rightarrow> MusicBrainzProvider \<Rightarrow> 'a world_scheme \<Rightarrow>
   (TrackMetadata option \<times> error option) \<times> MusicBrainzProvider \<times> 'a world_scheme" where
  "MusicBrainz_Lookup libs ctx artist title m w =
     LookupWithHints libs ctx
       \<lparr>sr_Artist = artist, sr_Title = title, sr_Album = '''', sr_Genre = '''', sr_Year = '''',
        sr_Duration = 0, sr_PreferOriginalRelease = True, sr_MaxResults = 5\<rparr> m w"

subsection \<open>Example data for the adapter\<close>

text \<open>
  The recordings and releases of the repository's unit tests, and a network that
  answers every request with them after 0.2 seconds, unless the context is done by
  then: then the call fails at that instant with an error wrapping the context's.
\<close>

definition example_recording :: "string \<Rightarrow> string \<Rightarrow> 64 word \<Rightarrow> string \<Rightarrow> Recording" where
  "example_recording ident title score artist =
     \<lparr>rc_ID = ident, rc_Title = title, rc_Length = 0, rc_Score = score,
      rc_ArtistCredit =
        [\<lparr>ac_Name = artist, ac_Joinphrase = '''',
          ac_Artist = \<lparr>ar_ID = '''', ar_Name = artist, ar_SortName = ''''\<rparr>\<rparr>],
      rc_Releases = []\<rparr>"

definition example_recordings :: "Recording list" where
  "example_recordings =
     [example_recording ''low-score'' ''Different Song'' 50 ''Different Artist'',
      example_recording ''exact-match'' ''Music'' 80 ''LTJ Bukem'',
      example_recording ''high-score-wrong-match'' ''Wrong Song'' 90 ''Wrong Artist'']"

definition example_release :: "string \<Rightarrow> string \<Rightarrow> string \<Rightarrow> Release" where
  "example_release ident title date =
     \<lparr>rl_ID = ident, rl_Title = title, rl_Status = '''', rl_Date = date, rl_Country = '''',
      rl_LabelInfo = []\<rparr>"

definition example_releases :: "Release list" where
  "example_releases =
     [example_release ''reissue'' ''Music (Reissue)'' ''2010-01-01'',
      example_release ''original'' ''Music'' ''1993-04-01'',
      example_release ''later-release'' ''Music (Special Edition)'' ''2000-01-01'']"

definition example_libs :: "unit libs" where
  "example_libs =
     \<lparr>lib_NewRequest = (\<lambda>url. None),
      lib_Do = (\<lambda>ctx url headers w.
        if isDone ctx (now w + 200000000)
        then (Inl (Wrapf ''Get'' (ctxErr ctx)), w\<lparr>now := max (now w) (the (doneAt ctx))\<rparr>)
        else (Inr (Response 200 (Inr ''{}'')), w\<lparr>now := now w + 200000000\<rparr>)),
      lib_Encode = (\<lambda>params. concat (map (\<lambda>(k, v). k @ ''='' @ v @ ''&'') params)),
      lib_Itoa = (\<lambda>n. if n = 5 then ''5'' else ''1''),
      lib_UnmarshalSearch = (\<lambda>body. Inr example_recordings),
      lib_UnmarshalDetail = (\<lambda>body. Inr example_releases),
      lib_EqualFold = EqualFold_ascii,
      lib_timerFirst = True\<rparr>"

section \<open>cmd/batch.go: the filename decomposer\<close>

subsection \<open>The Go library functions it calls\<close>

text \<open>
  A Go string is a sequence of bytes, here a \<open>char list\<close>. The functions of packages
  strings and unicode that look at runes decode UTF-8 on the way; on bytes, a white
  space rune is one of the byte sequences of \<open>unicodeSpaces\<close> (the UTF-8 encodings of
  the code points for which \<^verbatim>\<open>unicode.IsSpace\<close> holds: the six ASCII ones, U+0085,
  U+00A0, U+1680, U+2000 to U+200A, U+2028, U+2029, U+202F, U+205F and U+3000). Each
  starts with a byte that is not a continuation byte, so such a sequence is found at a
  position exactly when the decoder finds that rune there.
\<close>

definition unicodeSpaces :: "string list" where
  "unicodeSpaces =
     [ [CHR 0x09], [CHR 0x0A], [CHR 0x0B], [CHR 0x0C], [CHR 0x0D], [CHR 0x20],
      [CHR 0xC2, CHR 0x85], [CHR 0xC2, CHR 0xA0],
      [CHR 0xE1, CHR 0x9A, CHR 0x80],
      [CHR 0xE2, CHR 0x80, CHR 0x80], [CHR 0xE2, CHR 0x80, CHR 0x81],
      [CHR 0xE2, CHR 0x80, CHR 0x82], [CHR 0xE2, CHR 0x80, CHR 0x83],
      [CHR 0xE2, CHR 0x80, CHR 0x84], [CHR 0xE2, CHR 0x80, CHR 0x85],
      [CHR 0xE2, CHR 0x80, CHR 0x86], [CHR 0xE2, CHR 0x80, CHR 0x87],
      [CHR 0xE2, CHR 0x80, CHR 0x88], [CHR 0xE2, CHR 0x80, CHR 0x89],
      [CHR 0xE2, CHR 0x80, CHR 0x8A],
      [CHR 0xE2, CHR 0x80, CHR 0xA8], [CHR 0xE2, CHR 0x80, CHR 0xA9],
      [CHR 0xE2, CHR 0x80, CHR 0xAF], [CHR 0xE2, CHR 0x81, CHR 0x9F],
      [CHR 0xE3, CHR 0x80, CHR 0x80]]"

text \<open>
  The number of bytes of the white space rune at the start (at the end) of a string,
  0 when there is none.
\<close>

definition spaceWidth :: "string \<Rightarrow> nat" where
  "spaceWidth s =
     (case find (\<lambda>p. take (length p) s = p) unicodeSpaces of
        None \<Rightarrow> 0
      | Some p \<Rightarrow> length p)"

definition spaceWidthEnd :: "string \<Rightarrow> nat" where
  "spaceWidthEnd s =
     (case find (\<lambda>p. length p \<le> length s \<and> drop (length s - length p) s = p) unicodeSpaces of
        None \<Rightarrow> 0
      | Some p \<Rightarrow> length p)"

function trimLeft :: "string \<Rightarrow> string" where
  "trimLeft s = (if spaceWidth s = 0 \<or> s = [] then s else trimLeft (drop (spaceWidth s) s))"
  by pat_completeness auto
termination
  by (relation "measure length") auto

function trimRight :: "string \<Rightarrow> string" where
  "trimRight s =
     (if spaceWidthEnd s = 0 \<or> s = [] then s
      else trimRight (take (length s - spaceWidthEnd s) s))"
  by pat_completeness auto
termination
  by (relation "measure length") auto

declare trimLeft.simps [simp del]
declare trimRight.simps [simp del]

text \<open>\<^verbatim>\<open>strings.TrimSpace\<close>: all leading and trailing white space removed.\<close>

definition TrimSpace :: "string \<Rightarrow> string" where
  "TrimSpace s = trimRight (trimLeft s)"

text \<open>
  \<^verbatim>\<open>strings.Fields\<close>: the maximal runs of bytes between white space runes; \<open>cur\<close> is
  the field being read.
\<close>

function fieldsFrom :: "string \<Rightarrow> string \<Rightarrow> string list" where
  "fieldsFrom s cur =
     (case s of
        [] \<Rightarrow> (if cur = [] then [] else [cur])
      | c # rest \<Rightarrow>
          if spaceWidth s > 0
          then (if cur = [] then fieldsFrom (drop (spaceWidth s) s) []
                else cur # fieldsFrom (drop (spaceWidth s) s) [])
          else fieldsFrom rest (cur @ [c]))"
  by pat_completeness auto
termination
  by (relation "measure (\<lambda>(s, cur). length s)") auto

declare fieldsFrom.simps [simp del]

definition Fields :: "string \<Rightarrow> string list" where
  "Fields s = fieldsFrom s []"

text \<open>
  \<^verbatim>\<open>strings.Count\<close>, \<^verbatim>\<open>strings.SplitN\<close> and \<^verbatim>\<open>strings.Split\<close> for a separator of one
  byte (the source's is "-"). \<open>splitUpTo sep k s\<close> cuts at the first \<open>k\<close> separators.
\<close>

definition Count :: "string \<Rightarrow> char \<Rightarrow> nat" where
  "Count s sep = length (filter (\<lambda>c. c = sep) s)"

fun splitUpTo :: "char \<Rightarrow> nat \<Rightarrow> string \<Rightarrow> string list" where
  "splitUpTo sep 0 s = [s]"
| "splitUpTo sep (Suc k) s =
     (if sep \<in> set s
      then takeWhile (\<lambda>c. c \<noteq> sep) s # splitUpTo sep k (tl (dropWhile (\<lambda>c. c \<noteq> sep) s))
      else [s])"

definition SplitN :: "string \<Rightarrow> char \<Rightarrow> int \<Rightarrow> string list" where
  "SplitN s sep n =
     (if n = 0 then []
      else if n < 0 then splitUpTo sep (Count s sep) s
      else splitUpTo sep (nat (n - 1)) s)"

definition Split :: "string \<Rightarrow> char \<Rightarrow> string list" where
  "Split s sep = SplitN s sep (- 1)"

text \<open>\<^verbatim>\<open>strings.TrimSuffix\<close>, and \<^verbatim>\<open>filepath.Base\<close> and \<^verbatim>\<open>filepath.Ext\<close> on Unix.\<close>

definition TrimSuffix :: "string \<Rightarrow> string \<Rightarrow> string" where
  "TrimSuffix s suffix =
     (if length suffix \<le> length s \<and> drop (length s - length suffix) s = suffix
      then take (length s - length suffix) s else s)"

definition Base :: "string \<Rightarrow> string" where
  "Base path =
     (if path = [] then ''.''
      else
        let stripped = rev (dropWhile (\<lambda>c. c = CHR ''/'') (rev path));
            element = rev (takeWhile (\<lambda>c. c \<noteq> CHR ''/'') (rev stripped))
        in if element = [] then ''/'' else element)"

definition Ext :: "string \<Rightarrow> string" where
  "Ext path =
     (let element = takeWhile (\<lambda>c. c \<noteq> CHR ''/'') (rev path)
      in if CHR ''.'' \<in> set element
         then CHR ''.'' # rev (takeWhile (\<lambda>c. c \<noteq> CHR ''.'') element)
         else [])"

subsection \<open>The four prefix patterns\<close>

text \<open>
  The regular expressions of \<open>cleanTrackPrefix\<close> are anchored sequences of single
  character classes, each taken once, optionally, or repeated. In Go's syntax \<^verbatim>\<open>\d\<close> is
  an ASCII digit and \<^verbatim>\<open>\s\<close> one of tab, newline, form feed, carriage return and
  space. \<open>matchItems\<close> is the leftmost-first search of package regexp at position 0:
  a repetition takes as many characters as it can and gives them back one by one when
  the rest of the pattern fails. It returns what follows the match.
\<close>

datatype charClass = Digit | Space | Upper | Lit char

datatype item = One charClass | Opt charClass | Star charClass | Plus charClass

fun inClass :: "charClass \<Rightarrow> char \<Rightarrow> bool" where
  "inClass Digit c = (CHR ''0'' \<le> c \<and> c \<le> CHR ''9'')"
| "inClass Space c = (c \<in> {CHR 0x09, CHR 0x0A, CHR 0x0C, CHR 0x0D, CHR 0x20})"
| "inClass Upper c = (CHR ''A'' \<le> c \<and> c \<le> CHR ''Z'')"
| "inClass (Lit l) c = (c = l)"

fun matchItems :: "item list \<Rightarrow> string \<Rightarrow> string option" where
  "matchItems [] s = Some s"
| "matchItems (One cl # r) [] = None"
| "matchItems (One cl # r) (c # cs) = (if inClass cl c then matchItems r cs else None)"
| "matchItems (Opt cl # r) [] = matchItems r []"
| "matchItems (Opt cl # r) (c # cs) =
     (if inClass cl c
      then (case matchItems r cs of Some t \<Rightarrow> Some t | None \<Rightarrow> matchItems r (c # cs))
      else matchItems r (c # cs))"
| "matchItems (Star cl # r) [] = matchItems r []"
| "matchItems (Star cl # r) (c # cs) =
     (if inClass cl c
      then (case matchItems (Star cl # r) cs of
              Some t \<Rightarrow> Some t
            | None \<Rightarrow> matchItems r (c # cs))
      else matchItems r (c # cs))"
| "matchItems (Plus cl # r) [] = None"
| "matchItems (Plus cl # r) (c # cs) =
     (if inClass cl c then matchItems (Star cl # r) cs else None)"

text \<open>
  \<^verbatim>\<open>re.ReplaceAllString(name, "")\<close> for such a pattern: it can match at position 0
  only, and no pattern here matches the empty string.
\<close>

definition ReplaceAllString :: "item list \<Rightarrow> string \<Rightarrow> string" where
  "ReplaceAllString pattern name =
     (case matchItems pattern name of None \<Rightarrow> name | Some rest \<Rightarrow> rest)"

definition patterns :: "item list list" where
  "patterns =
     [ [Plus Digit, Opt (Lit (CHR ''.'')), Plus Space],
      [Plus Digit, Star Space, One (Lit (CHR ''-'')), Star Space],
      [One Upper, Plus Digit, Plus Space],
      [One Upper, Plus Digit, Star Space, One (Lit (CHR ''-'')), Star Space]]"

subsection \<open>The decomposer\<close>

definition cleanTrackPrefix :: "string \<Rightarrow> string" where
  "cleanTrackPrefix name =
     TrimSpace (foldl (\<lambda>name pattern. ReplaceAllString pattern name) name patterns)"

definition parseOneHyphen :: "string \<Rightarrow> string \<times> string" where
  "parseOneHyphen name =
     (let parts = SplitN name (CHR ''-'') 2
      in if length parts = 2 then (TrimSpace (parts ! 0), TrimSpace (parts ! 1)) else ('''', ''''))"

definition parseTwoHyphens :: "string \<Rightarrow> string \<times> string" where
  "parseTwoHyphens name =
     (let parts = SplitN name (CHR ''-'') 3
      in if length parts = 3 then (TrimSpace (parts ! 0), TrimSpace (parts ! 2)) else ('''', ''''))"

definition parseFourHyphens :: "string \<Rightarrow> string \<times> string" where
  "parseFourHyphens name =
     (let parts = SplitN name (CHR ''-'') 5
      in if length parts = 5
         then (TrimSpace (parts ! 0) @ ''/'' @ TrimSpace (parts ! 1), TrimSpace (parts ! 4))
         else ('''', ''''))"

definition trySpaceSeparated :: "string \<Rightarrow> string \<times> string" where
  "trySpaceSeparated name =
     (let words = Fields name
      in if length words \<ge> 2 \<and> length words = 2 then (words ! 0, words ! 1) else ('''', ''''))"

definition tryThreeHyphenFallback :: "string \<Rightarrow> string \<times> string" where
  "tryThreeHyphenFallback name =
     (let parts = SplitN name (CHR ''-'') 4
      in if length parts = 4 then (TrimSpace (parts ! 0), TrimSpace (parts ! 3)) else ('''', ''''))"

definition tryManyHyphenFallback :: "string \<Rightarrow> string \<times> string" where
  "tryManyHyphenFallback name =
     (let parts = Split name (CHR ''-'')
      in if length parts \<ge> 3
         then (TrimSpace (parts ! 0), TrimSpace (parts ! (length parts - 1)))
         else ('''', ''''))"

definition handleEdgeCase :: "string \<Rightarrow> string \<Rightarrow> string \<times> string" where
  "handleEdgeCase name caseType =
     (if caseType = ''no_hyphens'' then trySpaceSeparated name
      else if caseType = ''three_hyphens'' then tryThreeHyphenFallback name
      else if caseType = ''many_hyphens'' then tryManyHyphenFallback name
      else ('''', ''''))"

text \<open>
  \<open>parseFilenameWithEdgeCase\<close> returns (artist, title, edgeCase). What it prints on
  the way is left out.
\<close>

definition parseFilenameWithEdgeCase :: "string \<Rightarrow> string \<times> string \<times> string" where
  "parseFilenameWithEdgeCase filePath =
     (let filename = Base filePath;
          name = TrimSuffix filename (Ext filename);
          name = cleanTrackPrefix name;
          hyphenCount = Count name (CHR ''-'')
      in if hyphenCount = 0 then
           (case handleEdgeCase name ''no_hyphens'' of
              (artist, title) \<Rightarrow> (artist, title, ''no_hyphens''))
         else if hyphenCount = 1 then
           (case parseOneHyphen name of (artist, title) \<Rightarrow> (artist, title, ''''))
         else if hyphenCount = 2 then
           (case parseTwoHyphens name of (artist, title) \<Rightarrow> (artist, title, ''''))
         else if hyphenCount = 3 then
           (case handleEdgeCase name ''three_hyphens'' of
              (artist, title) \<Rightarrow> (artist, title, ''three_hyphens''))
         else if hyphenCount = 4 then
           (case parseFourHyphens name of (artist, title) \<Rightarrow> (artist, title, ''''))
         else
           (case handleEdgeCase name ''many_hyphens'' of
              (artist, title) \<Rightarrow> (artist, title, ''many_hyphens'')))"

definition parseFilename :: "string \<Rightarrow> string \<times> string" where
  "parseFilename filePath =
     (case parseFilenameWithEdgeCase filePath of (artist, title, edgeCase) \<Rightarrow> (artist, title))"

subsection \<open>The prefix patterns, in the spec's words\<close>

text \<open>
  \<open>inLanguage p s\<close>: the whole of \<open>s\<close> is a match of the pattern \<open>p\<close> (one character of
  the class, at most one, any number, at least one, in sequence).
\<close>

fun inLanguage :: "item list \<Rightarrow> string \<Rightarrow> bool" where
  "inLanguage [] s = (s = [])"
| "inLanguage (One cl # r) [] = False"
| "inLanguage (One cl # r) (c # cs) = (inClass cl c \<and> inLanguage r cs)"
| "inLanguage (Opt cl # r) [] = inLanguage r []"
| "inLanguage (Opt cl # r) (c # cs) = (inLanguage r (c # cs) \<or> (inClass cl c \<and> inLanguage r cs))"
| "inLanguage (Star cl # r) [] = inLanguage r []"
| "inLanguage (Star cl # r) (c # cs) =
     (inLanguage r (c # cs) \<or> (inClass cl c \<and> inLanguage (Star cl # r) cs))"
| "inLanguage (Plus cl # r) [] = False"
| "inLanguage (Plus cl # r) (c # cs) = (inClass cl c \<and> inLanguage (Star cl # r) cs)"

text \<open>
  The spec's preprocessing: at most one prefix is stripped, the match of the first of
  the four patterns that matches.
\<close>

definition spec_cleanTrackPrefix :: "string \<Rightarrow> string" where
  "spec_cleanTrackPrefix name =
     TrimSpace (case find (\<lambda>p. matchItems p name \<noteq> None) patterns of
                  None \<Rightarrow> name
                | Some p \<Rightarrow> ReplaceAllString p name)"

section \<open>Loop invariants\<close>

text \<open>
  The invariant of the loop of \<open>findBestRelease\<close> after the releases \<open>pre\<close>: without a
  choice so far nothing was seen; with one, it is the first release carrying the least
  date seen, or the very first release while no date was seen.
\<close>

definition release_inv :: "Release list \<Rightarrow> nat option \<Rightarrow> string \<Rightarrow> bool" where
  "release_inv pre best earliest =
     (case best of
        None \<Rightarrow> pre = [] \<and> earliest = []
      | Some k \<Rightarrow>
          k < length pre \<and>
          ((\<exists>r \<in> set pre. rl_Date r \<noteq> []) \<longrightarrow>
             earliest = rl_Date (pre ! k) \<and> earliest \<noteq> [] \<and>
             (\<forall>r \<in> set pre. rl_Date r \<noteq> [] \<longrightarrow> earliest \<le> rl_Date r) \<and>
             (\<forall>j < k. rl_Date (pre ! j) \<noteq> [] \<longrightarrow> earliest < rl_Date (pre ! j))) \<and>
          ((\<forall>r \<in> set pre. rl_Date r = []) \<longrightarrow> earliest = [] \<and> k = 0))"

text \<open>
  The invariant of the loop of \<open>findBestRecordingMatch\<close> after the recordings \<open>pre\<close>,
  for the adjusted scores \<open>sc\<close> read as signed integers: without a choice so far the
  running maximum is still 0 and no score seen was positive; with one, it is the first
  recording of the greatest score seen, and that score is positive.
\<close>

definition recording_inv ::
  "(Recording \<Rightarrow> int) \<Rightarrow> Recording list \<Rightarrow> int \<Rightarrow> nat option \<Rightarrow> bool" where
  "recording_inv sc pre bestScore best =
     (case best of
        None \<Rightarrow> bestScore = 0 \<and> (\<forall>r \<in> set pre. sc r \<le> 0)
      | Some k \<Rightarrow>
          k < length pre \<and> bestScore = sc (pre ! k) \<and> 0 < bestScore \<and>
          (\<forall>r \<in> set pre. sc r \<le> bestScore) \<and>
          (\<forall>j < k. sc (pre ! j) < bestScore))"

section \<open>Theorems\<close>

subsection \<open>The confidence score\<close>

text \<open>
  The constants are the doubles nearest to 0.1, 0.2 and 0.4: each is a 53-bit multiple
  \<open>m * 2 ^ e\<close> of its unit in the last place, \<open>2 ^ e\<close>, and differs from the decimal
  by less than half that unit (from 1/5 by \<open>1 / (5 * 2 ^ 54)\<close>, for 0.2).
\<close>

lemma float64_literals:
  "f0_1 = Fin 3602879701896397 (- 55) \<and> f0_2 = Fin 3602879701896397 (- 54) \<and>
   f0_4 = Fin 3602879701896397 (- 53) \<and>
   bitlen (2 * 3602879701896397) = 53 \<and>
   4 * \<bar>5 * 3602879701896397 - 2 ^ 54\<bar> < (5 :: int)"
  by code_simp

lemma confidence_sums:
  "\<forall>ex l d c.
     (let c1 = fadd f0_0 f0_2;
          c2 = (if ex then fadd c1 f0_4 else fadd c1 f0_2);
          c3 = (if l then fadd c2 f0_2 else c2);
          c4 = (if d then fadd c3 f0_1 else c3);
          c5 = (if c then fadd c4 f0_1 else c4)
      in if fgt c5 f1_0 then f1_0 else c5) =
     spec_min f1_0
       (fadd (fadd (fadd (fadd f0_2 (if ex then f0_4 else f0_2))
          (if l then f0_2 else f0_0)) (if d then f0_1 else f0_0)) (if c then f0_1 else f0_0))"
  by code_simp

lemma confidence_values:
  "\<forall>ex l d c.
     fge (spec_min f1_0
       (fadd (fadd (fadd (fadd f0_2 (if ex then f0_4 else f0_2))
          (if l then f0_2 else f0_0)) (if d then f0_1 else f0_0)) (if c then f0_1 else f0_0))) f0_0 \<and>
     fge f1_0 (spec_min f1_0
       (fadd (fadd (fadd (fadd f0_2 (if ex then f0_4 else f0_2))
          (if l then f0_2 else f0_0)) (if d then f0_1 else f0_0)) (if c then f0_1 else f0_0)))"
  "spec_min f1_0 (fadd (fadd (fadd (fadd f0_2 f0_4) f0_2) f0_1) f0_1) = f1_0"
  "spec_min f1_0 (fadd (fadd (fadd (fadd f0_2 f0_2) f0_0) f0_0) f0_0) = f0_4"
  by code_simp+

lemma CalculateConfidence_spec:
  "CalculateConfidence md exactMatch = spec_confidence md exactMatch"
  unfolding CalculateConfidence_def spec_confidence_def f0_0_def [symmetric]
  using confidence_sums by (simp add: f0_0_def)

text \<open>
  Claim C3. For every TrackMetadata value and every exactMatch flag, CalculateConfidence
  returns min(1.0, 0.2 + (0.4 if exactMatch else 0.2) + (0.2 if the label is non-empty) +
  (0.1 if the release date is non-empty or the year is positive) + (0.1 if the catalog
  number is non-empty)), in float64 arithmetic; an exact match with label, date and
  catalog number yields exactly 1.0, a fuzzy match with no label, date, year or catalog
  number yields exactly 0.4, and the result always lies in [0, 1].
\<close>

theorem CalculateConfidence_formula:
  "CalculateConfidence md exactMatch = spec_confidence md exactMatch \<and>
   (exactMatch \<and> tm_Label md \<noteq> '''' \<and> tm_ReleaseDate md \<noteq> '''' \<and>
      tm_CatalogNumber md \<noteq> '''' \<longrightarrow> CalculateConfidence md exactMatch = f1_0) \<and>
   (\<not> exactMatch \<and> tm_Label md = '''' \<and> tm_ReleaseDate md = '''' \<and> tm_Year md \<le> 0 \<and>
      tm_CatalogNumber md = '''' \<longrightarrow> CalculateConfidence md exactMatch = f0_4) \<and>
   fge (CalculateConfidence md exactMatch) f0_0 \<and>
   fge f1_0 (CalculateConfidence md exactMatch)"
proof -
  have eq: "CalculateConfidence md exactMatch = spec_confidence md exactMatch"
    by (rule CalculateConfidence_spec)
  have full: "exactMatch \<and> tm_Label md \<noteq> '''' \<and> tm_ReleaseDate md \<noteq> '''' \<and>
      tm_CatalogNumber md \<noteq> '''' \<longrightarrow> spec_confidence md exactMatch = f1_0"
    by (simp add: spec_confidence_def confidence_values(2))
  have bare: "\<not> exactMatch \<and> tm_Label md = '''' \<and> tm_ReleaseDate md = '''' \<and> tm_Year md \<le> 0 \<and>
      tm_CatalogNumber md = '''' \<longrightarrow> spec_confidence md exactMatch = f0_4"
    by (simp add: spec_confidence_def confidence_values(3))
  have rng: "fge (spec_confidence md exactMatch) f0_0 \<and> fge f1_0 (spec_confidence md exactMatch)"
    unfolding spec_confidence_def using confidence_values(1) by blast
  show ?thesis unfolding eq using full bare rng by blast
qed


theorem CalculateConfidence_formula_witness:
  "CalculateConfidence
     \<lparr>tm_Artist = ''LTJ Bukem'', tm_Title = ''Music'', tm_Album = ''Music'',
      tm_Label = ''Good Looking'', tm_ReleaseDate = ''1993-04-01'', tm_Genre = '''',
      tm_CatalogNumber = ''GLR001'', tm_Year = 1993, tm_ProviderID = ''id'',
      tm_ProviderName = ''MusicBrainz'', tm_Confidence = f0_0, tm_Extra = []\<rparr> True = f1_0 \<and>
   CalculateConfidence
     \<lparr>tm_Artist = ''LTJ Bukem'', tm_Title = ''Music'', tm_Album = '''',
      tm_Label = '''', tm_ReleaseDate = '''', tm_Genre = '''',
      tm_CatalogNumber = '''', tm_Year = 0, tm_ProviderID = ''id'',
      tm_ProviderName = ''MusicBrainz'', tm_Confidence = f0_0, tm_Extra = []\<rparr> False = f0_4"
proof -
  let ?full =
    "\<lparr>tm_Artist = ''LTJ Bukem'', tm_Title = ''Music'', tm_Album = ''Music'',
      tm_Label = ''Good Looking'', tm_ReleaseDate = ''1993-04-01'', tm_Genre = [],
      tm_CatalogNumber = ''GLR001'', tm_Year = 1993, tm_ProviderID = ''id'',
      tm_ProviderName = ''MusicBrainz'', tm_Confidence = f0_0, tm_Extra = []\<rparr>"
  let ?bare =
    "\<lparr>tm_Artist = ''LTJ Bukem'', tm_Title = ''Music'', tm_Album = [],
      tm_Label = [], tm_ReleaseDate = [], tm_Genre = [],
      tm_CatalogNumber = [], tm_Year = 0, tm_ProviderID = ''id'',
      tm_ProviderName = ''MusicBrainz'', tm_Confidence = f0_0, tm_Extra = []\<rparr>"
  have "True \<and> tm_Label ?full \<noteq> [] \<and> tm_ReleaseDate ?full \<noteq> [] \<and>
      tm_CatalogNumber ?full \<noteq> [] \<longrightarrow> CalculateConfidence ?full True = f1_0"
    using CalculateConfidence_formula [where exactMatch = True and md = ?full] by blast
  then have a: "CalculateConfidence ?full True = f1_0"
    by simp
  have "\<not> False \<and> tm_Label ?bare = [] \<and> tm_ReleaseDate ?bare = [] \<and> tm_Year ?bare \<le> 0 \<and>
      tm_CatalogNumber ?bare = [] \<longrightarrow> CalculateConfidence ?bare False = f0_4"
    using CalculateConfidence_formula [where exactMatch = False and md = ?bare] by blast
  then have b: "CalculateConfidence ?bare False = f0_4"
    by simp
  show ?thesis using a b by blast
qed

subsection \<open>The First strategy\<close>

lemma last_error_Nil: "last_error e0 [] = e0"
  by (simp add: last_error_def)

lemma last_error_Cons:
  "last_error e0 (c # cs) = last_error (if snd (fst c) \<noteq> None then snd (fst c) else e0) cs"
  by (simp add: last_error_def)

lemma lookupFirst_loop_calls:
  "lookupFirst_loop cfg ctx req ps lastErr w =
     (case find (qualifies cfg) (calls ps ctx req w) of
        Some c \<Rightarrow> ((fst (fst c), None), snd c)
      | None \<Rightarrow>
          ((None, Some (case last_error lastErr (calls ps ctx req w) of
                          Some err \<Rightarrow> err | None \<Rightarrow> ErrNotFound)),
           last (w # map snd (calls ps ctx req w))))"
proof (induction ps arbitrary: lastErr w)
  case Nil
  then show ?case by (cases lastErr) (simp_all add: last_error_Nil)
next
  case (Cons p ps)
  obtain result err w' where p: "p ctx req w = ((result, err), w')"
    by (metis prod.exhaust)
  show ?case
  proof (cases err)
    case (Some x)
    then show ?thesis using p Cons.IH [of "Some x" w']
      by (simp add: qualifies_def last_error_Cons split: option.splits)
  next
    case None
    show ?thesis
    proof (cases "accepts cfg result")
      case True
      then show ?thesis using p None by (simp add: qualifies_def)
    next
      case False
      then show ?thesis using p None Cons.IH [of lastErr w']
        by (simp add: qualifies_def last_error_Cons split: option.splits)
    qed
  qed
qed

text \<open>
  Claim C1. For every provider list and every request, the Enricher under the First
  strategy returns the result of the earliest provider in registration order whose
  LookupWithHints call succeeds with a non-nil result of confidence >= minConfidence
  and, when requireLabel is set, a non-empty label; providers that return an error are
  skipped with their error remembered; if no provider qualifies, the last provider
  error is returned when one occurred, and NotFound otherwise.
\<close>

theorem lookupFirst_earliest_qualifying:
  "lookupFirst e ctx req w = spec_lookupFirst e ctx req w"
  by (simp add: lookupFirst_def spec_lookupFirst_def lookupFirst_loop_calls Let_def)

theorem lookupFirst_earliest_qualifying_witness:
  "lookupFirst
     \<lparr>providers = [failing_provider ErrAPIError, answering_provider ''low'' f0_2,
                   answering_provider ''good'' f1_0, answering_provider ''late'' f1_0],
      config = example_config\<rparr> Background example_request 0 =
     ((Some (example_metadata ''good'' f1_0), None), 3) \<and>
   lookupFirst
     \<lparr>providers = [failing_provider ErrAPIError, answering_provider ''low'' f0_2,
                   failing_provider ErrRateLimit, answering_provider ''low'' f0_1],
      config = example_config\<rparr> Background example_request 0 =
     ((None, Some ErrRateLimit), 4) \<and>
   lookupFirst
     \<lparr>providers = [answering_provider ''low'' f0_2], config = example_config\<rparr>
     Background example_request 0 = ((None, Some ErrNotFound), 1)"
  using lookupFirst_earliest_qualifying [where w = "0::nat" and ctx = Background
      and req = example_request and e =
        "\<lparr>providers = [failing_provider ErrAPIError, answering_provider ''low'' f0_2,
                   answering_provider ''good'' f1_0, answering_provider ''late'' f1_0],
          config = example_config\<rparr>"]
    lookupFirst_earliest_qualifying [where w = "0::nat" and ctx = Background
      and req = example_request and e =
        "\<lparr>providers = [failing_provider ErrAPIError, answering_provider ''low'' f0_2,
                   failing_provider ErrRateLimit, answering_provider ''low'' f0_1],
          config = example_config\<rparr>"]
    lookupFirst_earliest_qualifying [where w = "0::nat" and ctx = Background
      and req = example_request and e =
        "\<lparr>providers = [answering_provider ''low'' f0_2], config = example_config\<rparr>"]
  by (simp add: spec_lookupFirst_def qualifies_def accepts_def last_error_def
      failing_provider_def answering_provider_def example_metadata_def example_config_def
      f0_1_def f0_2_def f0_4_def f1_0_def Let_def)

subsection \<open>The empty registry\<close>

text \<open>
  Claim C2 says that both Lookup and LookupWithRequest return NoProvider on an empty
  registry. Lookup does (\<open>Lookup_empty_registry\<close> below). LookupWithRequest has no
  such check: on an empty registry each strategy runs its loop over no provider and
  ends in NotFound, for every configuration, context, request and world.
\<close>

theorem LookupWithRequest_empty_registry:
  "LookupWithRequest \<lparr>providers = [], config = cfg\<rparr> ctx req w = ((None, Some ErrNotFound), w)"
  by (cases "ec_Strategy cfg")
     (simp_all add: LookupWithRequest_def lookupFirst_def lookupBest_def lookupFallback_def Let_def)

lemma Lookup_empty_registry:
  "Lookup \<lparr>providers = [], config = cfg\<rparr> ctx artist title w = ((None, Some ErrNoProvider), w)"
  by (simp add: Lookup_def)

subsection \<open>The Fallback strategy\<close>

text \<open>
  Claim C7. Under the Fallback strategy, for every request whose full-hint First pass
  fails (an error, or no result), a second First pass is made, in the world the first
  pass left, with a request whose Artist, Title, PreferOriginalRelease and MaxResults
  fields equal those of the original request and whose Album, Genre, Year and Duration
  fields are cleared to zero values.
\<close>

theorem lookupFallback_second_pass:
  assumes "lookupFirst e ctx req w = ((result, err), w1)"
    and "err \<noteq> None \<or> result = None"
  shows "lookupFallback e ctx req w =
     lookupFirst e ctx
       \<lparr>sr_Artist = sr_Artist req, sr_Title = sr_Title req, sr_Album = '''', sr_Genre = '''',
        sr_Year = '''', sr_Duration = 0,
        sr_PreferOriginalRelease = sr_PreferOriginalRelease req,
        sr_MaxResults = sr_MaxResults req\<rparr> w1"
  using assms by (auto simp add: lookupFallback_def Let_def)

theorem lookupFallback_second_pass_witness:
  "lookupFallback \<lparr>providers = [logging_provider], config = example_config\<rparr>
     Background example_request [] =
   ((None, Some ErrNotFound),
    [example_request,
     \<lparr>sr_Artist = ''LTJ Bukem'', sr_Title = ''Music'', sr_Album = '''', sr_Genre = '''',
      sr_Year = '''', sr_Duration = 0, sr_PreferOriginalRelease = True, sr_MaxResults = 5\<rparr>])"
proof -
  let ?e = "\<lparr>providers = [logging_provider], config = example_config\<rparr>"
  have first: "lookupFirst ?e Background example_request [] =
      ((None, Some ErrNotFound), [example_request])"
    by (simp add: lookupFirst_def logging_provider_def)
  have "lookupFallback ?e Background example_request [] =
     lookupFirst ?e Background
       \<lparr>sr_Artist = sr_Artist example_request, sr_Title = sr_Title example_request,
        sr_Album = '''', sr_Genre = '''', sr_Year = '''', sr_Duration = 0,
        sr_PreferOriginalRelease = sr_PreferOriginalRelease example_request,
        sr_MaxResults = sr_MaxResults example_request\<rparr> [example_request]"
    by (rule lookupFallback_second_pass [OF first]) simp
  then show ?thesis
    by (simp add: lookupFirst_def logging_provider_def example_request_def)
qed

subsection \<open>The release selection\<close>

lemma release_inv_NoneD: "release_inv pre None earliest \<Longrightarrow> pre = [] \<and> earliest = []"
  by (simp add: release_inv_def)

lemma release_inv_SomeD:
  assumes "release_inv pre (Some k) earliest"
  shows "k < length pre"
    and "\<exists>r \<in> set pre. rl_Date r \<noteq> [] \<Longrightarrow> earliest = rl_Date (pre ! k)"
    and "\<exists>r \<in> set pre. rl_Date r \<noteq> [] \<Longrightarrow> earliest \<noteq> []"
    and "\<exists>r \<in> set pre. rl_Date r \<noteq> [] \<Longrightarrow> x \<in> set pre \<Longrightarrow> rl_Date x \<noteq> [] \<Longrightarrow>
         earliest \<le> rl_Date x"
    and "\<exists>r \<in> set pre. rl_Date r \<noteq> [] \<Longrightarrow> j < k \<Longrightarrow> rl_Date (pre ! j) \<noteq> [] \<Longrightarrow>
         earliest < rl_Date (pre ! j)"
    and "\<forall>r \<in> set pre. rl_Date r = [] \<Longrightarrow> earliest = [] \<and> k = 0"
  using assms by (auto simp add: release_inv_def)

lemma release_inv_SomeI:
  assumes "k < length pre"
    and "\<exists>r \<in> set pre. rl_Date r \<noteq> [] \<Longrightarrow> earliest = rl_Date (pre ! k) \<and> earliest \<noteq> []"
    and "\<And>x. \<exists>r \<in> set pre. rl_Date r \<noteq> [] \<Longrightarrow> x \<in> set pre \<Longrightarrow> rl_Date x \<noteq> [] \<Longrightarrow>
         earliest \<le> rl_Date x"
    and "\<And>j. \<exists>r \<in> set pre. rl_Date r \<noteq> [] \<Longrightarrow> j < k \<Longrightarrow> rl_Date (pre ! j) \<noteq> [] \<Longrightarrow>
         earliest < rl_Date (pre ! j)"
    and "\<forall>r \<in> set pre. rl_Date r = [] \<Longrightarrow> earliest = [] \<and> k = 0"
  shows "release_inv pre (Some k) earliest"
  using assms unfolding release_inv_def option.case by blast

lemma release_inv_older:
  assumes "release_inv pre best earliest" "earliest = [] \<or> d < earliest"
    "x \<in> set pre" "rl_Date x \<noteq> []"
  shows "d < rl_Date x"
proof (cases best)
  case None
  then show ?thesis using assms(1,3) release_inv_NoneD by fastforce
next
  case (Some k)
  have dated: "\<exists>r \<in> set pre. rl_Date r \<noteq> []" using assms(3,4) by blast
  have "earliest \<noteq> []" and "earliest \<le> rl_Date x"
    using release_inv_SomeD(3,4) [OF assms(1) [unfolded Some] dated] assms(3,4) by auto
  then show ?thesis using assms(2) by auto
qed

lemma release_inv_step_dated_new:
  assumes "release_inv pre best earliest" "rl_Date r \<noteq> []"
    "earliest = [] \<or> rl_Date r < earliest"
  shows "release_inv (pre @ [r]) (Some (length pre)) (rl_Date r)"
proof (rule release_inv_SomeI)
  show "length pre < length (pre @ [r])" by simp
  show "rl_Date r = rl_Date ((pre @ [r]) ! length pre) \<and> rl_Date r \<noteq> []"
    using assms(2) by simp
  show "rl_Date r \<le> rl_Date x" if "x \<in> set (pre @ [r])" "rl_Date x \<noteq> []" for x
  proof (cases "x = r")
    case True
    then show ?thesis by simp
  next
    case False
    then have "x \<in> set pre" using that(1) by simp
    then show ?thesis using release_inv_older [OF assms(1,3) _ that(2)] by simp
  qed
  show "rl_Date r < rl_Date ((pre @ [r]) ! j)"
    if "j < length pre" "rl_Date ((pre @ [r]) ! j) \<noteq> []" for j
  proof -
    have "(pre @ [r]) ! j = pre ! j" using that(1) by (simp add: nth_append)
    moreover have "pre ! j \<in> set pre" using that(1) by simp
    ultimately show ?thesis using release_inv_older [OF assms(1,3)] that(2) by simp
  qed
  show "rl_Date r = [] \<and> length pre = 0" if "\<forall>x \<in> set (pre @ [r]). rl_Date x = []"
    using that assms(2) by simp
qed

lemma release_inv_step_dated_keep:
  assumes "release_inv pre best earliest" "rl_Date r \<noteq> []"
    "\<not> (earliest = [] \<or> rl_Date r < earliest)"
  shows "release_inv (pre @ [r]) best earliest"
proof (cases best)
  case None
  then show ?thesis using assms(1,3) release_inv_NoneD by blast
next
  case (Some k)
  note inv = assms(1) [unfolded Some]
  have e: "earliest \<noteq> []" and le: "earliest \<le> rl_Date r"
    using assms(3) by auto
  have dated: "\<exists>x \<in> set pre. rl_Date x \<noteq> []"
    using release_inv_SomeD(6) [OF inv] e by blast
  have k: "k < length pre" using release_inv_SomeD(1) [OF inv] .
  show ?thesis unfolding Some
  proof (rule release_inv_SomeI)
    show "k < length (pre @ [r])" using k by simp
    show "earliest = rl_Date ((pre @ [r]) ! k) \<and> earliest \<noteq> []"
      using release_inv_SomeD(2) [OF inv dated] e k by (simp add: nth_append)
    show "earliest \<le> rl_Date x" if "x \<in> set (pre @ [r])" "rl_Date x \<noteq> []" for x
    proof (cases "x = r")
      case True
      then show ?thesis using le by simp
    next
      case False
      then have "x \<in> set pre" using that(1) by simp
      then show ?thesis using release_inv_SomeD(4) [OF inv dated] that(2) by simp
    qed
    show "earliest < rl_Date ((pre @ [r]) ! j)"
      if "j < k" "rl_Date ((pre @ [r]) ! j) \<noteq> []" for j
    proof -
      have "(pre @ [r]) ! j = pre ! j" using that(1) k by (simp add: nth_append)
      then show ?thesis using release_inv_SomeD(5) [OF inv dated that(1)] that(2) by simp
    qed
    show "earliest = [] \<and> k = 0" if "\<forall>x \<in> set (pre @ [r]). rl_Date x = []"
      using that assms(2) by simp
  qed
qed

lemma release_inv_step_undated_first:
  assumes "release_inv pre None earliest" "rl_Date r = []"
  shows "release_inv (pre @ [r]) (Some (length pre)) earliest"
  using release_inv_NoneD [OF assms(1)] assms(2) by (simp add: release_inv_def)

lemma release_inv_step_undated_keep:
  assumes "release_inv pre (Some k) earliest" "rl_Date r = []"
  shows "release_inv (pre @ [r]) (Some k) earliest"
proof -
  note inv = assms(1)
  have k: "k < length pre" using release_inv_SomeD(1) [OF inv] .
  have dated_iff: "(\<exists>x \<in> set (pre @ [r]). rl_Date x \<noteq> []) = (\<exists>x \<in> set pre. rl_Date x \<noteq> [])"
    using assms(2) by auto
  show ?thesis
  proof (rule release_inv_SomeI)
    show "k < length (pre @ [r])" using k by simp
    show "earliest = rl_Date ((pre @ [r]) ! k) \<and> earliest \<noteq> []"
      if "\<exists>x \<in> set (pre @ [r]). rl_Date x \<noteq> []"
      using release_inv_SomeD(2,3) [OF inv] that [unfolded dated_iff] k
      by (simp add: nth_append)
    show "earliest \<le> rl_Date x"
      if "\<exists>x \<in> set (pre @ [r]). rl_Date x \<noteq> []" "x \<in> set (pre @ [r])" "rl_Date x \<noteq> []" for x
    proof -
      have "x \<in> set pre" using that(2,3) assms(2) by auto
      then show ?thesis using release_inv_SomeD(4) [OF inv that(1) [unfolded dated_iff]] that(3)
        by simp
    qed
    show "earliest < rl_Date ((pre @ [r]) ! j)"
      if "\<exists>x \<in> set (pre @ [r]). rl_Date x \<noteq> []" "j < k" "rl_Date ((pre @ [r]) ! j) \<noteq> []" for j
    proof -
      have "(pre @ [r]) ! j = pre ! j" using that(2) k by (simp add: nth_append)
      then show ?thesis
        using release_inv_SomeD(5) [OF inv that(1) [unfolded dated_iff] that(2)] that(3) by simp
    qed
    show "earliest = [] \<and> k = 0" if "\<forall>x \<in> set (pre @ [r]). rl_Date x = []"
      using release_inv_SomeD(6) [OF inv] that by simp
  qed
qed

lemma findBestRelease_loop_inv:
  "release_inv pre best earliest \<Longrightarrow> i = length pre \<Longrightarrow>
   \<exists>e'. release_inv (pre @ rs) (findBestRelease_loop rs i best earliest) e'"
proof (induction rs arbitrary: pre i best earliest)
  case Nil
  then show ?case by auto
next
  case (Cons r rs)
  have app: "pre @ r # rs = (pre @ [r]) @ rs" by simp
  have len: "Suc i = length (pre @ [r])" using Cons.prems(2) by simp
  show ?case
  proof (cases "rl_Date r \<noteq> []")
    case True
    show ?thesis
    proof (cases "earliest = [] \<or> rl_Date r < earliest")
      case c: True
      have "release_inv (pre @ [r]) (Some i) (rl_Date r)"
        using release_inv_step_dated_new [OF Cons.prems(1) True c] Cons.prems(2) by simp
      from Cons.IH [OF this len] show ?thesis
        unfolding app using True c by simp
    next
      case c: False
      have "release_inv (pre @ [r]) best earliest"
        using release_inv_step_dated_keep [OF Cons.prems(1) True c] .
      from Cons.IH [OF this len] show ?thesis
        unfolding app using True c by simp
    qed
  next
    case False
    then have u: "rl_Date r = []" by simp
    show ?thesis
    proof (cases best)
      case None
      have "release_inv (pre @ [r]) (Some i) earliest"
        using release_inv_step_undated_first [OF Cons.prems(1) [unfolded None] u] Cons.prems(2)
        by simp
      from Cons.IH [OF this len] show ?thesis
        unfolding app using u None by simp
    next
      case (Some k)
      have "release_inv (pre @ [r]) (Some k) earliest"
        using release_inv_step_undated_keep [OF Cons.prems(1) [unfolded Some] u] .
      from Cons.IH [OF this len] show ?thesis
        unfolding app using u Some by simp
    qed
  qed
qed

text \<open>
  Claim C5. For every non-empty release list: when preferOriginalRelease is true, the
  selected release is one carrying the lexicographically smallest non-empty date string
  (the first such release in the list), falling back to the first release encountered
  when no release carries a date; when preferOriginalRelease is false, the selected
  release is the first release in the list regardless of dates.
\<close>

theorem findBestRelease_selects:
  assumes "releases \<noteq> []"
  shows "findBestRelease releases False = Some 0 \<and>
    (\<exists>k. findBestRelease releases True = Some k \<and> k < length releases \<and>
       ((\<exists>r \<in> set releases. rl_Date r \<noteq> []) \<longrightarrow>
          rl_Date (releases ! k) \<noteq> [] \<and>
          (\<forall>r \<in> set releases. rl_Date r \<noteq> [] \<longrightarrow> rl_Date (releases ! k) \<le> rl_Date r) \<and>
          (\<forall>j < k. rl_Date (releases ! j) \<noteq> [] \<longrightarrow>
             rl_Date (releases ! k) < rl_Date (releases ! j))) \<and>
       ((\<forall>r \<in> set releases. rl_Date r = []) \<longrightarrow> k = 0))"
proof -
  have "release_inv [] None []" by (simp add: release_inv_def)
  from findBestRelease_loop_inv [OF this, of 0 releases]
  obtain e' where inv: "release_inv releases (findBestRelease_loop releases 0 None []) e'"
    by auto
  have some: "findBestRelease_loop releases 0 None [] \<noteq> None"
  proof
    assume "findBestRelease_loop releases 0 None [] = None"
    then show False using inv assms release_inv_NoneD by fastforce
  qed
  then obtain k where k: "findBestRelease_loop releases 0 None [] = Some k" by auto
  note invk = inv [unfolded k]
  have t: "findBestRelease releases True = Some k"
    using assms k by (simp add: findBestRelease_def)
  have f: "findBestRelease releases False = Some 0"
    using assms by (simp add: findBestRelease_def)
  have "k < length releases" using release_inv_SomeD(1) [OF invk] .
  moreover have "(\<exists>r \<in> set releases. rl_Date r \<noteq> []) \<longrightarrow>
          rl_Date (releases ! k) \<noteq> [] \<and>
          (\<forall>r \<in> set releases. rl_Date r \<noteq> [] \<longrightarrow> rl_Date (releases ! k) \<le> rl_Date r) \<and>
          (\<forall>j < k. rl_Date (releases ! j) \<noteq> [] \<longrightarrow>
             rl_Date (releases ! k) < rl_Date (releases ! j))"
    using release_inv_SomeD(2,3,4,5) [OF invk] by metis
  moreover have "(\<forall>r \<in> set releases. rl_Date r = []) \<longrightarrow> k = 0"
    using release_inv_SomeD(6) [OF invk] by blast
  ultimately show ?thesis using t f by blast
qed

theorem findBestRelease_selects_witness:
  "example_releases \<noteq> [] \<and>
   findBestRelease example_releases False = Some 0 \<and>
   findBestRelease example_releases True = Some 1 \<and>
   rl_ID (example_releases ! 1) = ''original''"
  using findBestRelease_selects [of example_releases]
  by (simp add: findBestRelease_def example_releases_def example_release_def)

subsection \<open>The recording selection\<close>

lemma recording_inv_step_new:
  assumes "recording_inv sc pre bestScore best" "bestScore < sc r"
  shows "recording_inv sc (pre @ [r]) (sc r) (Some (length pre))"
proof -
  have pos: "0 \<le> bestScore" and le: "\<forall>x \<in> set pre. sc x \<le> bestScore"
    using assms(1) by (cases best; fastforce simp add: recording_inv_def)+
  have "\<forall>j < length pre. sc (pre ! j) < sc r"
  proof (intro allI impI)
    fix j assume "j < length pre"
    then have "sc (pre ! j) \<le> bestScore" using le nth_mem by blast
    then show "sc (pre ! j) < sc r" using assms(2) by linarith
  qed
  then show ?thesis
    using pos le assms(2) by (fastforce simp add: recording_inv_def nth_append)
qed

lemma recording_inv_step_keep:
  assumes "recording_inv sc pre bestScore best" "\<not> bestScore < sc r"
  shows "recording_inv sc (pre @ [r]) bestScore best"
proof (cases best)
  case None
  then show ?thesis using assms by (auto simp add: recording_inv_def)
next
  case (Some k)
  then show ?thesis using assms by (auto simp add: recording_inv_def nth_append)
qed

lemma findBestRecordingMatch_loop_inv:
  "recording_inv (\<lambda>r. sint (recordingScore eqFold r targetArtist targetTitle)) pre
     (sint bestScore) best \<Longrightarrow> i = length pre \<Longrightarrow>
   \<exists>b. recording_inv (\<lambda>r. sint (recordingScore eqFold r targetArtist targetTitle)) (pre @ rs) b
     (findBestRecordingMatch_loop eqFold targetArtist targetTitle rs i bestScore best)"
proof (induction rs arbitrary: pre i bestScore best)
  case Nil
  then show ?case by auto
next
  case (Cons r rs)
  let ?sc = "\<lambda>r. sint (recordingScore eqFold r targetArtist targetTitle)"
  have app: "pre @ r # rs = (pre @ [r]) @ rs" by simp
  have len: "Suc i = length (pre @ [r])" using Cons.prems(2) by simp
  show ?case
  proof (cases "bestScore <s recordingScore eqFold r targetArtist targetTitle")
    case True
    then have "sint bestScore < ?sc r" by (simp add: word_sless_alt)
    from recording_inv_step_new [OF Cons.prems(1) this]
    have "recording_inv ?sc (pre @ [r])
        (sint (recordingScore eqFold r targetArtist targetTitle)) (Some i)"
      using Cons.prems(2) by simp
    from Cons.IH [OF this len] show ?thesis
      unfolding app using True by (simp add: Let_def)
  next
    case False
    then have "\<not> sint bestScore < ?sc r" by (simp add: word_sless_alt)
    from recording_inv_step_keep [OF Cons.prems(1) this]
    have "recording_inv ?sc (pre @ [r]) (sint bestScore) best" .
    from Cons.IH [OF this len] show ?thesis
      unfolding app using False by (simp add: Let_def)
  qed
qed

text \<open>
  What the selection does on every input: when some candidate has a positive adjusted
  score, it returns the first candidate of the greatest adjusted score; otherwise it
  returns none.
\<close>

lemma findBestRecordingMatch_positive:
  assumes "\<exists>r \<in> set recordings. 0 <s recordingScore eqFold r targetArtist targetTitle"
  shows "\<exists>k. findBestRecordingMatch eqFold recordings targetArtist targetTitle = Some k \<and>
     k < length recordings \<and>
     (\<forall>r \<in> set recordings.
        recordingScore eqFold r targetArtist targetTitle \<le>s
        recordingScore eqFold (recordings ! k) targetArtist targetTitle) \<and>
     (\<forall>j < k. recordingScore eqFold (recordings ! j) targetArtist targetTitle <s
        recordingScore eqFold (recordings ! k) targetArtist targetTitle)"
proof -
  let ?sc = "\<lambda>r. sint (recordingScore eqFold r targetArtist targetTitle)"
  have ne: "recordings \<noteq> []" using assms by auto
  have "recording_inv ?sc [] (sint (0 :: 64 word)) None"
    by (simp add: recording_inv_def)
  from findBestRecordingMatch_loop_inv [OF this, of 0 recordings]
  obtain b where inv: "recording_inv ?sc recordings b
      (findBestRecordingMatch_loop eqFold targetArtist targetTitle recordings 0 0 None)"
    by auto
  obtain r where r: "r \<in> set recordings" "0 < ?sc r"
    using assms by (auto simp add: word_sless_alt)
  have "findBestRecordingMatch_loop eqFold targetArtist targetTitle recordings 0 0 None \<noteq> None"
  proof
    assume "findBestRecordingMatch_loop eqFold targetArtist targetTitle recordings 0 0 None = None"
    then have "\<forall>x \<in> set recordings. ?sc x \<le> 0"
      using inv by (simp add: recording_inv_def)
    then show False using r by fastforce
  qed
  then obtain k where k:
    "findBestRecordingMatch_loop eqFold targetArtist targetTitle recordings 0 0 None = Some k"
    by auto
  have res: "findBestRecordingMatch eqFold recordings targetArtist targetTitle = Some k"
    using ne k by (simp add: findBestRecordingMatch_def)
  have "k < length recordings" "\<forall>x \<in> set recordings. ?sc x \<le> ?sc (recordings ! k)"
    "\<forall>j < k. ?sc (recordings ! j) < ?sc (recordings ! k)"
    using inv unfolding k by (auto simp add: recording_inv_def)
  then show ?thesis using res by (simp add: word_sle_eq word_sless_alt)
qed

lemma findBestRecordingMatch_none:
  "findBestRecordingMatch eqFold recordings targetArtist targetTitle = None \<longleftrightarrow>
   (\<forall>r \<in> set recordings. recordingScore eqFold r targetArtist targetTitle \<le>s 0)"
proof (cases "\<exists>r \<in> set recordings. 0 <s recordingScore eqFold r targetArtist targetTitle")
  case True
  from findBestRecordingMatch_positive [OF True] True show ?thesis
    by (auto simp add: word_sle_eq word_sless_alt)
next
  case False
  let ?sc = "\<lambda>r. sint (recordingScore eqFold r targetArtist targetTitle)"
  have all: "\<forall>x \<in> set recordings. ?sc x \<le> 0"
    using False by (auto simp add: word_sless_alt not_less)
  have "recording_inv ?sc [] (sint (0 :: 64 word)) None"
    by (simp add: recording_inv_def)
  from findBestRecordingMatch_loop_inv [OF this, of 0 recordings]
  obtain b where inv: "recording_inv ?sc recordings b
      (findBestRecordingMatch_loop eqFold targetArtist targetTitle recordings 0 0 None)"
    by auto
  have "findBestRecordingMatch_loop eqFold targetArtist targetTitle recordings 0 0 None = None"
  proof (rule ccontr)
    assume "findBestRecordingMatch_loop eqFold targetArtist targetTitle recordings 0 0 None \<noteq> None"
    then obtain k where
      "findBestRecordingMatch_loop eqFold targetArtist targetTitle recordings 0 0 None = Some k"
      by auto
    then have "k < length recordings" "0 < ?sc (recordings ! k)"
      using inv by (auto simp add: recording_inv_def)
    then show False using all by (metis not_less nth_mem)
  qed
  then show ?thesis using all by (simp add: findBestRecordingMatch_def word_sle_eq)
qed

text \<open>
  Claim C4 says that for every non-empty candidate list the selection returns a
  candidate of maximum adjusted score (relevance score, plus 10 for a title match, plus
  10 for an artist match), the first one on a tie. The source starts its running
  maximum at 0 and replaces it on a strictly greater score only: a non-empty list
  whose adjusted scores are all 0 or less selects no candidate at all.
\<close>

theorem findBestRecordingMatch_zero_score:
  "findBestRecordingMatch EqualFold_ascii
     [example_recording ''only'' ''Music'' 0 ''LTJ Bukem''] ''Photek'' ''Ni Ten Ichi Ryu'' = None"
  by (simp add: findBestRecordingMatch_def recordingScore_def example_recording_def
      EqualFold_ascii_def lower_ascii_def word_sless_alt)

lemma findBestRecordingMatch_test_case:
  "findBestRecordingMatch EqualFold_ascii example_recordings ''LTJ Bukem'' ''Music'' = Some 1"
  by (simp add: findBestRecordingMatch_def recordingScore_def example_recordings_def
      example_recording_def EqualFold_ascii_def lower_ascii_def word_sless_alt)

subsection \<open>The rate-limit wait\<close>

text \<open>
  Claim C10. For every context, if at least the full rate-limit interval (one second)
  has elapsed since the provider's last recorded request, waitForRateLimit returns nil
  without consulting the context (it only records the current instant), so a call made
  with an already-canceled context is not held back; the cancellation error is returned
  only when a wait is actually pending, and then it is the context's own error.
\<close>

theorem waitForRateLimit_no_wait:
  "(rateLimit \<le> Since (mb_lastRequest m) (now w) \<longrightarrow>
      waitForRateLimit timerFirst ctx m w = (None, m\<lparr>mb_lastRequest := now w\<rparr>, w)) \<and>
   (\<forall>err. fst (waitForRateLimit timerFirst ctx m w) = Some err \<longrightarrow>
      Since (mb_lastRequest m) (now w) < rateLimit \<and> err = ctxErr ctx \<and>
      (\<exists>c. doneAt ctx = Some c \<and>
           c \<le> now w + (rateLimit - Since (mb_lastRequest m) (now w))))"
  by (auto simp add: waitForRateLimit_def Let_def split: option.splits if_splits)

theorem waitForRateLimit_no_wait_witness:
  "rateLimit \<le> Since (mb_lastRequest NewMusicBrainzProvider) (now \<lparr>now = 1000\<rparr>) \<and>
   isDone \<lparr>doneAt = Some 0, ctxErr = Canceled\<rparr> 1000 \<and>
   waitForRateLimit True \<lparr>doneAt = Some 0, ctxErr = Canceled\<rparr> NewMusicBrainzProvider
     \<lparr>now = 1000\<rparr> =
     (None, NewMusicBrainzProvider\<lparr>mb_lastRequest := 1000\<rparr>, \<lparr>now = 1000\<rparr>) \<and>
   waitForRateLimit True \<lparr>doneAt = Some 0, ctxErr = Canceled\<rparr>
     \<lparr>mb_userAgent = userAgent, mb_lastRequest = 600\<rparr> \<lparr>now = 1000\<rparr> =
     (Some Canceled, \<lparr>mb_userAgent = userAgent, mb_lastRequest = 600\<rparr>, \<lparr>now = 1000\<rparr>)"
proof -
  have h: "rateLimit \<le> Since (mb_lastRequest NewMusicBrainzProvider) (now \<lparr>now = 1000\<rparr>)"
    by (simp add: rateLimit_def Since_def NewMusicBrainzProvider_def zeroTime_def)
  have a: "waitForRateLimit True \<lparr>doneAt = Some 0, ctxErr = Canceled\<rparr> NewMusicBrainzProvider
     \<lparr>now = 1000\<rparr> = (None, NewMusicBrainzProvider\<lparr>mb_lastRequest := 1000\<rparr>, \<lparr>now = 1000\<rparr>)"
    using waitForRateLimit_no_wait [of NewMusicBrainzProvider "\<lparr>now = 1000\<rparr>" True
        "\<lparr>doneAt = Some 0, ctxErr = Canceled\<rparr>"] h
    by simp
  have b: "waitForRateLimit True \<lparr>doneAt = Some 0, ctxErr = Canceled\<rparr>
     \<lparr>mb_userAgent = userAgent, mb_lastRequest = 600\<rparr> \<lparr>now = 1000\<rparr> =
     (Some Canceled, \<lparr>mb_userAgent = userAgent, mb_lastRequest = 600\<rparr>, \<lparr>now = 1000\<rparr>)"
    by (simp add: waitForRateLimit_def rateLimit_def Since_def)
  show ?thesis using h a b by (simp add: isDone_def)
qed

subsection \<open>Cancellation inside LookupWithHints\<close>

text \<open>
  Claim C6 says that a cancellation during a rate-limit wait or a remote call inside
  LookupWithHints reaches the caller as the context's error, unchanged. Two runs show
  what the source does. In the first the context is canceled during the second
  rate-limit wait, before the release lookup: the context's error comes back wrapped
  in "musicbrainz release lookup failed". The second is the run of the repository's
  integration test, a new provider called with a context that is already canceled:
  the rate-limit wait is skipped, the remote call fails, and its error comes back
  wrapped twice.
\<close>

theorem LookupWithHints_wraps_cancellation:
  "LookupWithHints example_libs \<lparr>doneAt = Some 2500000000, ctxErr = Canceled\<rparr> example_request
     \<lparr>mb_userAgent = userAgent, mb_lastRequest = 0\<rparr> \<lparr>now = 2000000000\<rparr> =
     ((None, Some (Wrapf ''musicbrainz release lookup failed'' Canceled)),
      \<lparr>mb_userAgent = userAgent, mb_lastRequest = 2000000000\<rparr>, \<lparr>now = 2500000000\<rparr>) \<and>
   LookupWithHints example_libs \<lparr>doneAt = Some 0, ctxErr = Canceled\<rparr> example_request
     NewMusicBrainzProvider \<lparr>now = 1000\<rparr> =
     ((None, Some (Wrapf ''musicbrainz recording search failed''
                     (Wrapf ''http request failed'' (Wrapf ''Get'' Canceled)))),
      NewMusicBrainzProvider\<lparr>mb_lastRequest := 1000\<rparr>, \<lparr>now = 1000\<rparr>)"
proof -
  have best: "findBestRecordingMatch EqualFold_ascii example_recordings ''LTJ Bukem'' ''Music'' = Some 1"
    by (rule findBestRecordingMatch_test_case)
  have w1: "waitForRateLimit True \<lparr>doneAt = Some 2500000000, ctxErr = Canceled\<rparr>
      \<lparr>mb_userAgent = userAgent, mb_lastRequest = 0\<rparr> \<lparr>now = 2000000000\<rparr> =
      (None, \<lparr>mb_userAgent = userAgent, mb_lastRequest = 2000000000\<rparr>, \<lparr>now = 2000000000\<rparr>)"
    by (simp add: waitForRateLimit_def rateLimit_def Since_def)
  have s1: "searchRecordings example_libs \<lparr>doneAt = Some 2500000000, ctxErr = Canceled\<rparr>
      example_request \<lparr>mb_userAgent = userAgent, mb_lastRequest = 2000000000\<rparr>
      \<lparr>now = 2000000000\<rparr> = (Inr example_recordings, \<lparr>now = 2200000000\<rparr>)"
    by (simp add: searchRecordings_def fetch_def example_libs_def isDone_def Let_def)
  have w2: "waitForRateLimit True \<lparr>doneAt = Some 2500000000, ctxErr = Canceled\<rparr>
      \<lparr>mb_userAgent = userAgent, mb_lastRequest = 2000000000\<rparr> \<lparr>now = 2200000000\<rparr> =
      (Some Canceled, \<lparr>mb_userAgent = userAgent, mb_lastRequest = 2000000000\<rparr>,
       \<lparr>now = 2500000000\<rparr>)"
    by (simp add: waitForRateLimit_def rateLimit_def Since_def)
  have g: "getRecordingReleases example_libs \<lparr>doneAt = Some 2500000000, ctxErr = Canceled\<rparr>
      ''exact-match'' \<lparr>mb_userAgent = userAgent, mb_lastRequest = 2000000000\<rparr>
      \<lparr>now = 2200000000\<rparr> =
      (Inl Canceled, \<lparr>mb_userAgent = userAgent, mb_lastRequest = 2000000000\<rparr>,
       \<lparr>now = 2500000000\<rparr>)"
    using w2 by (simp add: getRecordingReleases_def example_libs_def)
  have tf: "lib_timerFirst example_libs = True" and ef: "lib_EqualFold example_libs = EqualFold_ascii"
    by (simp_all add: example_libs_def)
  have rq: "sr_Artist example_request = ''LTJ Bukem''" "sr_Title example_request = ''Music''"
    by (simp_all add: example_request_def)
  have id1: "rc_ID (example_recordings ! Suc 0) = ''exact-match''" "length example_recordings = 3"
    by (simp_all add: example_recordings_def example_recording_def)
  have first: "LookupWithHints example_libs \<lparr>doneAt = Some 2500000000, ctxErr = Canceled\<rparr>
     example_request \<lparr>mb_userAgent = userAgent, mb_lastRequest = 0\<rparr> \<lparr>now = 2000000000\<rparr> =
     ((None, Some (Wrapf ''musicbrainz release lookup failed'' Canceled)),
      \<lparr>mb_userAgent = userAgent, mb_lastRequest = 2000000000\<rparr>, \<lparr>now = 2500000000\<rparr>)"
    by (simp add: LookupWithHints_def tf ef rq w1 s1 best id1 g Let_def)
  have w3: "waitForRateLimit True \<lparr>doneAt = Some 0, ctxErr = Canceled\<rparr> NewMusicBrainzProvider
      \<lparr>now = 1000\<rparr> = (None, NewMusicBrainzProvider\<lparr>mb_lastRequest := 1000\<rparr>, \<lparr>now = 1000\<rparr>)"
    by (simp add: waitForRateLimit_def rateLimit_def Since_def NewMusicBrainzProvider_def
        zeroTime_def)
  have s3: "searchRecordings example_libs \<lparr>doneAt = Some 0, ctxErr = Canceled\<rparr>
      example_request (NewMusicBrainzProvider\<lparr>mb_lastRequest := 1000\<rparr>) \<lparr>now = 1000\<rparr> =
      (Inl (Wrapf ''http request failed'' (Wrapf ''Get'' Canceled)), \<lparr>now = 1000\<rparr>)"
    by (simp add: searchRecordings_def fetch_def example_libs_def isDone_def Let_def)
  have second: "LookupWithHints example_libs \<lparr>doneAt = Some 0, ctxErr = Canceled\<rparr>
     example_request NewMusicBrainzProvider \<lparr>now = 1000\<rparr> =
     ((None, Some (Wrapf ''musicbrainz recording search failed''
                     (Wrapf ''http request failed'' (Wrapf ''Get'' Canceled)))),
      NewMusicBrainzProvider\<lparr>mb_lastRequest := 1000\<rparr>, \<lparr>now = 1000\<rparr>)"
    by (simp add: LookupWithHints_def tf w3 s3)
  show ?thesis using first second by blast
qed

lemma LookupWithHints_error_shapes:
  assumes "snd (fst (LookupWithHints libs ctx req m w)) = Some err"
  shows "fst (waitForRateLimit (lib_timerFirst libs) ctx m w) = Some err \<or>
         err = ErrNotFound \<or>
         (\<exists>cause. err = Wrapf ''musicbrainz recording search failed'' cause) \<or>
         (\<exists>cause. err = Wrapf ''musicbrainz release lookup failed'' cause)"
  using assms
  by (auto simp add: LookupWithHints_def Let_def split: prod.splits option.splits sum.splits if_splits)

subsection \<open>The prefix patterns\<close>

lemma matchItems_sound:
  "matchItems p s = Some rest \<Longrightarrow> \<exists>pre. s = pre @ rest \<and> inLanguage p pre"
proof (induction p s arbitrary: rest rule: matchItems.induct)
  case (1 s)
  then show ?case by simp
next
  case (2 cl r)
  then show ?case by simp
next
  case (3 cl r c cs)
  then have cl: "inClass cl c" and m: "matchItems r cs = Some rest"
    by (auto split: if_splits)
  from "3.IH" [OF cl m] obtain pre where "cs = pre @ rest" "inLanguage r pre" by blast
  then have "c # cs = (c # pre) @ rest \<and> inLanguage (One cl # r) (c # pre)"
    using cl by simp
  then show ?case by blast
next
  case (4 cl r)
  then have "matchItems r [] = Some rest" by simp
  from "4.IH" [OF this] show ?case by auto
next
  case (5 cl r c cs)
  show ?case
  proof (cases "inClass cl c \<and> matchItems r cs \<noteq> None")
    case True
    then have cl: "inClass cl c" and m: "matchItems r cs = Some rest"
      using "5.prems" by auto
    from "5.IH"(1) [OF cl m] obtain pre where "cs = pre @ rest" "inLanguage r pre" by blast
    then have "c # cs = (c # pre) @ rest \<and> inLanguage (Opt cl # r) (c # pre)"
      using cl by simp
    then show ?thesis by blast
  next
    case False
    then have m: "matchItems r (c # cs) = Some rest"
      using "5.prems" by (auto split: if_splits)
    have "\<exists>pre. c # cs = pre @ rest \<and> inLanguage r pre"
    proof (cases "inClass cl c")
      case True
      then have "matchItems r cs = None" using False by simp
      from "5.IH"(2) [OF True this m] show ?thesis .
    next
      case False
      from "5.IH"(3) [OF False m] show ?thesis .
    qed
    then obtain pre where p: "c # cs = pre @ rest" "inLanguage r pre" by blast
    then have "inLanguage (Opt cl # r) pre" by (cases pre) simp_all
    then show ?thesis using p by blast
  qed
next
  case (6 cl r)
  then have "matchItems r [] = Some rest" by simp
  from "6.IH" [OF this] show ?case by auto
next
  case (7 cl r c cs)
  show ?case
  proof (cases "inClass cl c \<and> matchItems (Star cl # r) cs \<noteq> None")
    case True
    then have cl: "inClass cl c" and m: "matchItems (Star cl # r) cs = Some rest"
      using "7.prems" by auto
    from "7.IH"(1) [OF cl m] obtain pre where "cs = pre @ rest" "inLanguage (Star cl # r) pre"
      by blast
    then have "c # cs = (c # pre) @ rest \<and> inLanguage (Star cl # r) (c # pre)"
      using cl by simp
    then show ?thesis by blast
  next
    case False
    then have m: "matchItems r (c # cs) = Some rest"
      using "7.prems" by (auto split: if_splits)
    have "\<exists>pre. c # cs = pre @ rest \<and> inLanguage r pre"
    proof (cases "inClass cl c")
      case True
      then have "matchItems (Star cl # r) cs = None" using False by simp
      from "7.IH"(2) [OF True this m] show ?thesis .
    next
      case False
      from "7.IH"(3) [OF False m] show ?thesis .
    qed
    then obtain pre where p: "c # cs = pre @ rest" "inLanguage r pre" by blast
    then have "inLanguage (Star cl # r) pre" by (cases pre) simp_all
    then show ?thesis using p by blast
  qed
next
  case (8 cl r)
  then show ?case by simp
next
  case (9 cl r c cs)
  then have cl: "inClass cl c" and m: "matchItems (Star cl # r) cs = Some rest"
    by (auto split: if_splits)
  from "9.IH" [OF cl m] obtain pre where "cs = pre @ rest" "inLanguage (Star cl # r) pre"
    by blast
  then have "c # cs = (c # pre) @ rest \<and> inLanguage (Plus cl # r) (c # pre)"
    using cl by simp
  then show ?case by blast
qed

lemma matchItems_skip_Opt: "matchItems r s \<noteq> None \<Longrightarrow> matchItems (Opt cl # r) s \<noteq> None"
  by (cases s) (auto split: option.splits)

lemma matchItems_skip_Star: "matchItems r s \<noteq> None \<Longrightarrow> matchItems (Star cl # r) s \<noteq> None"
  by (cases s) (auto split: option.splits)

lemma matchItems_complete:
  "inLanguage p pre \<Longrightarrow> matchItems p (pre @ rest) \<noteq> None"
proof (induction p pre arbitrary: rest rule: inLanguage.induct)
  case (1 s)
  then show ?case by simp
next
  case (2 cl r)
  then show ?case by simp
next
  case (3 cl r c cs)
  then show ?case by simp
next
  case (4 cl r)
  then have "matchItems r ([] @ rest) \<noteq> None" by simp
  then show ?case using matchItems_skip_Opt by simp
next
  case (5 cl r c cs)
  from "5.prems" consider "inLanguage r (c # cs)" | "inClass cl c" "inLanguage r cs" by auto
  then show ?case
  proof cases
    case 1
    from "5.IH"(1) [OF this] have "matchItems r ((c # cs) @ rest) \<noteq> None" .
    then show ?thesis using matchItems_skip_Opt by blast
  next
    case 2
    from "5.IH"(2) [OF 2(2)] have "matchItems r (cs @ rest) \<noteq> None" .
    then show ?thesis using 2(1) by auto
  qed
next
  case (6 cl r)
  then have "matchItems r ([] @ rest) \<noteq> None" by simp
  then show ?case using matchItems_skip_Star by simp
next
  case (7 cl r c cs)
  from "7.prems" consider "inLanguage r (c # cs)" | "inClass cl c" "inLanguage (Star cl # r) cs"
    by auto
  then show ?case
  proof cases
    case 1
    from "7.IH"(1) [OF this] have "matchItems r ((c # cs) @ rest) \<noteq> None" .
    then show ?thesis using matchItems_skip_Star by blast
  next
    case 2
    from "7.IH"(2) [OF 2(2)] have "matchItems (Star cl # r) (cs @ rest) \<noteq> None" .
    then show ?thesis using 2(1) by auto
  qed
next
  case (8 cl r)
  then show ?case by simp
next
  case (9 cl r c cs)
  then show ?case by simp
qed

lemma ReplaceAllString_removes_match:
  "\<exists>pre. s = pre @ ReplaceAllString p s \<and> (pre = [] \<or> inLanguage p pre) \<and>
         ((\<exists>q rest. s = q @ rest \<and> inLanguage p q) \<longrightarrow> inLanguage p pre)"
proof (cases "matchItems p s")
  case None
  have no: "\<not> (\<exists>q rest. s = q @ rest \<and> inLanguage p q)"
    using matchItems_complete None by blast
  have same: "ReplaceAllString p s = s"
    using None by (simp add: ReplaceAllString_def)
  have "s = [] @ s \<and> ([] = [] \<or> inLanguage p []) \<and>
         ((\<exists>q rest. s = q @ rest \<and> inLanguage p q) \<longrightarrow> inLanguage p [])"
    using no by blast
  then show ?thesis unfolding same by (rule exI)
next
  case (Some rest)
  from matchItems_sound [OF Some] obtain pre where "s = pre @ rest" "inLanguage p pre" by blast
  then show ?thesis using Some by (auto simp add: ReplaceAllString_def)
qed

text \<open>
  Claim C9, as amended. The four prefix patterns (digits with optional period, then
  white space; digits then a hyphen; one uppercase letter and digits, then white space;
  one uppercase letter and digits then a hyphen) are applied in that order, each to
  what the previous ones left. Each removes one leading match when the string has one
  and leaves the string unchanged otherwise, so up to four prefixes, one for each
  pattern, can be removed; the result is then trimmed of white space.
\<close>

theorem cleanTrackPrefix_applies_every_pattern:
  "cleanTrackPrefix name =
     TrimSpace (ReplaceAllString (patterns ! 3) (ReplaceAllString (patterns ! 2)
       (ReplaceAllString (patterns ! 1) (ReplaceAllString (patterns ! 0) name)))) \<and>
   (\<exists>pre. s = pre @ ReplaceAllString p s \<and> (pre = [] \<or> inLanguage p pre) \<and>
          ((\<exists>q rest. s = q @ rest \<and> inLanguage p q) \<longrightarrow> inLanguage p pre))"
  using ReplaceAllString_removes_match [of s p]
  by (simp add: cleanTrackPrefix_def patterns_def)

text \<open>
  Claim C9 as stated (at most one prefix is removed overall) fails on a name with a
  track number followed by a side number: the first pattern removes "01 " and the third
  then removes "A1 ", where the spec's preprocessing keeps "A1 Artist - Title".
\<close>

theorem cleanTrackPrefix_two_prefixes:
  "cleanTrackPrefix ''01 A1 Artist - Title'' = ''Artist - Title'' \<and>
   spec_cleanTrackPrefix ''01 A1 Artist - Title'' = ''A1 Artist - Title'' \<and>
   ReplaceAllString (patterns ! 0) ''01 A1 Artist - Title'' = ''A1 Artist - Title'' \<and>
   ReplaceAllString (patterns ! 2) ''A1 Artist - Title'' = ''Artist - Title''"
  by code_simp

theorem cleanTrackPrefix_applies_every_pattern_witness:
  "cleanTrackPrefix ''01 Artist - Title'' = ''Artist - Title'' \<and>
   (\<exists>pre. ''01 Artist - Title'' = pre @ ReplaceAllString (patterns ! 0) ''01 Artist - Title'' \<and>
          inLanguage (patterns ! 0) pre)"
proof -
  have run: "cleanTrackPrefix ''01 Artist - Title'' = ''Artist - Title''"
    by code_simp
  have "''01 Artist - Title'' = ''01 '' @ ''Artist - Title'' \<and> inLanguage (patterns ! 0) ''01 ''"
    by code_simp
  then have some: "\<exists>q rest. ''01 Artist - Title'' = q @ rest \<and> inLanguage (patterns ! 0) q"
    by blast
  from cleanTrackPrefix_applies_every_pattern
    [of "''01 Artist - Title''" "''01 Artist - Title''" "patterns ! 0"] some run
  show ?thesis by blast
qed

subsection \<open>The edge-case tag\<close>

lemma Count_Cons: "Count (c # s) sep = (if c = sep then Suc (Count s sep) else Count s sep)"
  by (simp add: Count_def)

lemma Count_pos_iff: "0 < Count s sep \<longleftrightarrow> sep \<in> set s"
  by (induction s) (auto simp add: Count_def)

lemma Count_after_separator:
  "sep \<in> set s \<Longrightarrow> Suc (Count (tl (dropWhile (\<lambda>c. c \<noteq> sep) s)) sep) = Count s sep"
  by (induction s) (auto simp add: Count_def)

lemma length_splitUpTo: "length (splitUpTo sep k s) = Suc (min k (Count s sep))"
proof (induction k arbitrary: s)
  case 0
  then show ?case by simp
next
  case (Suc k)
  show ?case
  proof (cases "sep \<in> set s")
    case True
    then show ?thesis
      using Suc.IH [of "tl (dropWhile (\<lambda>c. c \<noteq> sep) s)"] Count_after_separator [OF True]
      by simp
  next
    case False
    then have "Count s sep = 0" using Count_pos_iff [of s sep] by simp
    then show ?thesis using False by simp
  qed
qed

lemma SplitN_exact:
  "Count s sep = k \<Longrightarrow> SplitN s sep (int k + 1) = Split s sep \<and> length (Split s sep) = k + 1"
  by (simp add: SplitN_def Split_def length_splitUpTo)

text \<open>
  Claim C8, as amended. The edge-case tag depends on the number of hyphens of the
  cleaned name alone: it is empty exactly when that number is 1, 2 or 4, "no_hyphens"
  for 0, "three_hyphens" for 3 and "many_hyphens" for 5 or more. Artist and title are
  the trimmed first and last hyphen-separated parts (for 4 hyphens the artist is the
  first two parts joined by "/"; for no hyphen they are the two words of a two-word
  name and empty otherwise), whether or not the tag is empty.
\<close>

theorem edge_tag_by_hyphen_count:
  assumes "parseFilenameWithEdgeCase filePath = (artist, title, edgeCase)"
    and "name = cleanTrackPrefix (TrimSuffix (Base filePath) (Ext (Base filePath)))"
    and "n = Count name (CHR ''-'')"
    and "parts = Split name (CHR ''-'')"
  shows "length parts = n + 1 \<and>
    (edgeCase = [] \<longleftrightarrow> n = 1 \<or> n = 2 \<or> n = 4) \<and>
    (n = 0 \<longrightarrow> edgeCase = ''no_hyphens'' \<and>
       (artist, title) =
         (if length (Fields name) = 2 then (Fields name ! 0, Fields name ! 1) else ([], []))) \<and>
    (n = 1 \<longrightarrow> artist = TrimSpace (parts ! 0) \<and> title = TrimSpace (parts ! 1)) \<and>
    (n = 2 \<longrightarrow> artist = TrimSpace (parts ! 0) \<and> title = TrimSpace (parts ! 2)) \<and>
    (n = 3 \<longrightarrow> edgeCase = ''three_hyphens'' \<and>
       artist = TrimSpace (parts ! 0) \<and> title = TrimSpace (parts ! 3)) \<and>
    (n = 4 \<longrightarrow> artist = TrimSpace (parts ! 0) @ ''/'' @ TrimSpace (parts ! 1) \<and>
       title = TrimSpace (parts ! 4)) \<and>
    (5 \<le> n \<longrightarrow> edgeCase = ''many_hyphens'' \<and>
       artist = TrimSpace (parts ! 0) \<and> title = TrimSpace (parts ! n))"
proof -
  have len: "length parts = n + 1"
    using SplitN_exact [of name "CHR ''-''" n] assms(3,4) by simp
  have split: "\<And>k. n = k \<Longrightarrow> SplitN name (CHR ''-'') (int k + 1) = parts"
    using SplitN_exact [of name "CHR ''-''"] assms(3,4) by simp
  have s2: "n = 1 \<Longrightarrow> SplitN name (CHR ''-'') 2 = parts" using split [of 1] by simp
  have s3: "n = 2 \<Longrightarrow> SplitN name (CHR ''-'') 3 = parts" using split [of 2] by simp
  have s4: "n = 3 \<Longrightarrow> SplitN name (CHR ''-'') 4 = parts" using split [of 3] by simp
  have s5: "n = 4 \<Longrightarrow> SplitN name (CHR ''-'') 5 = parts" using split [of 4] by simp
  note p = assms(1) [unfolded parseFilenameWithEdgeCase_def Let_def, folded assms(2), folded assms(3)]
  consider "n = 0" | "n = 1" | "n = 2" | "n = 3" | "n = 4" | "5 \<le> n" by linarith
  then show ?thesis
  proof cases
    case 1
    then show ?thesis using p len
      by (auto simp add: handleEdgeCase_def trySpaceSeparated_def Let_def split: if_splits)
  next
    case 2
    then show ?thesis using p len s2
      by (auto simp add: parseOneHyphen_def Let_def split: if_splits)
  next
    case 3
    then show ?thesis using p len s3
      by (auto simp add: parseTwoHyphens_def Let_def split: if_splits)
  next
    case 4
    then show ?thesis using p len s4
      by (auto simp add: handleEdgeCase_def tryThreeHyphenFallback_def Let_def split: if_splits)
  next
    case 5
    then show ?thesis using p len s5
      by (auto simp add: parseFourHyphens_def Let_def split: if_splits)
  next
    case 6
    then show ?thesis using p len assms(4)
      by (auto simp add: handleEdgeCase_def tryManyHyphenFallback_def Let_def split: if_splits)
  qed
qed

text \<open>
  Claim C8 as stated (whenever artist and title are both non-empty the tag is empty)
  fails on a name with three hyphens and on a name of two words.
\<close>

theorem edge_tag_with_artist_and_title:
  "parseFilenameWithEdgeCase ''A - B - C - D'' = (''A'', ''D'', ''three_hyphens'') \<and>
   parseFilenameWithEdgeCase ''Artist Title'' = (''Artist'', ''Title'', ''no_hyphens'')"
  by code_simp

theorem edge_tag_by_hyphen_count_witness:
  "parseFilenameWithEdgeCase ''/music/01 Artist - Title.aiff'' = (''Artist'', ''Title'', []) \<and>
   cleanTrackPrefix (TrimSuffix (Base ''/music/01 Artist - Title.aiff'')
     (Ext (Base ''/music/01 Artist - Title.aiff''))) = ''Artist - Title'' \<and>
   Count ''Artist - Title'' (CHR ''-'') = 1 \<and>
   length (Split ''Artist - Title'' (CHR ''-'')) = 2 \<and>
   TrimSpace (Split ''Artist - Title'' (CHR ''-'') ! 0) = ''Artist'' \<and>
   TrimSpace (Split ''Artist - Title'' (CHR ''-'') ! 1) = ''Title''"
proof -
  have run: "parseFilenameWithEdgeCase ''/music/01 Artist - Title.aiff'' =
      (''Artist'', ''Title'', [])"
    by code_simp
  have name: "''Artist - Title'' =
      cleanTrackPrefix (TrimSuffix (Base ''/music/01 Artist - Title.aiff'')
        (Ext (Base ''/music/01 Artist - Title.aiff'')))"
    by code_simp
  have n: "(1::nat) = Count ''Artist - Title'' (CHR ''-'')"
    by code_simp
  from edge_tag_by_hyphen_count [OF run name n refl]
  show ?thesis using run name [symmetric] n [symmetric] by simp
qed

end
